theory Spec2Isabelle
  imports Main "HOL-Library.Sublist"
begin

section \<open>Strings and the Normalizer\<close>

text \<open>
  A JavaScript string is a sequence of code units. The model reads a \<^typ>\<open>string\<close> as the
  code units below 256 (Latin-1): \<open>length\<close> counts code units as \<open>.length\<close> does,
  the class \<open>\s\<close> of the regular expressions and of \<open>trim\<close> holds TAB, LF, VT, FF, CR,
  SPACE and NBSP there, and \<open>toLowerCase\<close> adds 32 to \<open>A..Z\<close> and to the
  capital letters \<open>0xC0..0xDE\<close> (but not to the multiplication sign \<open>0xD7\<close>).
\<close>

definition is_space :: "char \<Rightarrow> bool" where
  "is_space c = (c \<in> {CHR 0x09, CHR 0x0A, CHR 0x0B, CHR 0x0C, CHR 0x0D, CHR 0x20, CHR 0xA0})"

definition is_upper :: "char \<Rightarrow> bool" where
  "is_upper c = (let n = (of_char c :: nat)
      in (65 \<le> n \<and> n \<le> 90) \<or> (192 \<le> n \<and> n \<le> 222 \<and> n \<noteq> 215))"

text \<open>Adding 32 to a capital letter sets bit 5 of its code unit, which is clear there.\<close>

definition toLowerCase_char :: "char \<Rightarrow> char" where
  "toLowerCase_char c =
     (if is_upper c
      then (case c of Char b0 b1 b2 b3 b4 b5 b6 b7 \<Rightarrow> Char b0 b1 b2 b3 b4 True b6 b7)
      else c)"

definition toLowerCase :: "string \<Rightarrow> string" where
  "toLowerCase s = map toLowerCase_char s"

text \<open>\<^verbatim>\<open>x.replace(/[\s_-]/g, "").toLowerCase()\<close>\<close>

definition sanitise :: "string \<Rightarrow> string" where
  "sanitise x =
     toLowerCase (filter (\<lambda>c. \<not> (is_space c \<or> c = CHR ''_'' \<or> c = CHR ''-'')) x)"

text \<open>\<^verbatim>\<open>sanitise(string).startsWith(sanitise(substr))\<close>\<close>

definition fuzzyMatch :: "string \<Rightarrow> string \<Rightarrow> bool" where
  "fuzzyMatch str substr = prefix (sanitise substr) (sanitise str)"

section \<open>Array.prototype.sort\<close>

text \<open>
  \<open>sort\<close> calls the comparator \<open>cmp a b\<close> and reads only the sign of its result:
  negative puts \<open>a\<close> first, positive puts \<open>b\<close> first, zero (and NaN) keeps the order
  of the array, since the sort is stable. For a consistent comparator the sorted array is
  unique; \<open>js_sort\<close> computes it by stable insertion.
\<close>

fun js_insert :: "('a \<Rightarrow> 'a \<Rightarrow> int) \<Rightarrow> 'a \<Rightarrow> 'a list \<Rightarrow> 'a list" where
  "js_insert cmp x [] = [x]"
| "js_insert cmp x (y # ys) = (if cmp x y \<le> 0 then x # y # ys else y # js_insert cmp x ys)"

definition js_sort :: "('a \<Rightarrow> 'a \<Rightarrow> int) \<Rightarrow> 'a list \<Rightarrow> 'a list" where
  "js_sort cmp xs = foldr (js_insert cmp) xs []"

section \<open>The Matcher\<close>

text \<open>
  A matchable string of a candidate may be \<open>null\<close> or \<open>undefined\<close> (a team without a
  key, a user without an email): \<open>None\<close>. \<open>filter(Boolean)\<close> drops these and the
  empty string.
\<close>

definition filterBoolean :: "string option list \<Rightarrow> string list" where
  "filterBoolean xs = concat (map (\<lambda>x. case x of None \<Rightarrow> [] | Some s \<Rightarrow> (if s = [] then [] else [s])) xs)"

record match_info =
  original :: string
  sanitized :: string
  isExact :: bool
  isFuzzy :: bool

record 'a candidate =
  item :: 'a
  matches :: "match_info list"
  hasExactMatch :: bool
  shortestMatchLength :: "nat option"

text \<open>\<open>Math.min(...lengths)\<close>; of no number it is \<open>Infinity\<close>, here \<open>None\<close>.\<close>

definition math_min :: "nat list \<Rightarrow> nat option" where
  "math_min xs = (case xs of [] \<Rightarrow> None | y # ys \<Rightarrow> Some (fold min ys y))"

definition mkMatch :: "string \<Rightarrow> string \<Rightarrow> string \<Rightarrow> match_info" where
  "mkMatch searchTerm sanitizedSearchTerm str =
     \<lparr> original = str,
       sanitized = sanitise str,
       isExact = (sanitise str = sanitizedSearchTerm),
       isFuzzy = fuzzyMatch str searchTerm \<rparr>"

definition mkCandidate ::
  "string \<Rightarrow> string \<Rightarrow> ('a \<Rightarrow> string option list) \<Rightarrow> 'a \<Rightarrow> 'a candidate" where
  "mkCandidate searchTerm sanitizedSearchTerm getMatchableStrings it =
     (let matchableStrings = filterBoolean (getMatchableStrings it);
          ms = map (mkMatch searchTerm sanitizedSearchTerm) matchableStrings
      in \<lparr> item = it,
           matches = filter (\<lambda>m. isExact m \<or> isFuzzy m) ms,
           hasExactMatch = list_ex isExact ms,
           shortestMatchLength =
             math_min (map (\<lambda>m. length (original m)) (filter (\<lambda>m. isExact m \<or> isFuzzy m) ms)) \<rparr>)"

text \<open>
  \<open>a.shortestMatchLength - b.shortestMatchLength\<close>, by its sign: \<open>Infinity\<close> minus a
  number is positive, a number minus \<open>Infinity\<close> negative. \<open>Infinity - Infinity\<close> is
  NaN: it is not \<open>0\<close>, so the comparator returns it, and \<open>sort\<close> reads it as zero.
\<close>

fun lengthDiff :: "nat option \<Rightarrow> nat option \<Rightarrow> int" where
  "lengthDiff (Some a) (Some b) = int a - int b"
| "lengthDiff None (Some b) = 1"
| "lengthDiff (Some a) None = -1"
| "lengthDiff None None = 0"

text \<open>\<open>getMatchableStrings(x.item)[0] || ''\<close>\<close>

definition primaryName :: "string option list \<Rightarrow> string" where
  "primaryName xs = (case xs of [] \<Rightarrow> [] | None # _ \<Rightarrow> [] | Some s # _ \<Rightarrow> s)"

text \<open>
  The comparator of the final sort. \<open>localeCompare\<close> belongs to the platform, and its
  order depends on the locale: it is the parameter \<open>lc\<close>.
\<close>

definition rank ::
  "(string \<Rightarrow> string \<Rightarrow> int) \<Rightarrow> ('a \<Rightarrow> string option list) \<Rightarrow> 'a candidate \<Rightarrow> 'a candidate \<Rightarrow> int" where
  "rank lc getMatchableStrings a b =
     (if hasExactMatch a \<and> \<not> hasExactMatch b then -1
      else if \<not> hasExactMatch a \<and> hasExactMatch b then 1
      else if shortestMatchLength a = None \<and> shortestMatchLength b = None then 0
      else let d = lengthDiff (shortestMatchLength a) (shortestMatchLength b)
           in if d \<noteq> 0 then d
              else lc (primaryName (getMatchableStrings (item a)))
                      (primaryName (getMatchableStrings (item b))))"

text \<open>
  \<open>findBestMatch(word, collection, getMatchableStrings)\<close>. The collection is \<open>None\<close>
  when the caller passes \<open>null\<close>; the result \<open>None\<close> is the source's \<open>null\<close>.
\<close>

definition findBestMatch ::
  "(string \<Rightarrow> string \<Rightarrow> int) \<Rightarrow> string \<Rightarrow> 'a list option \<Rightarrow> ('a \<Rightarrow> string option list) \<Rightarrow> 'a option" where
  "findBestMatch lc word collection getMatchableStrings =
     (case collection of
        None \<Rightarrow> None
      | Some coll \<Rightarrow>
          if word = [] then None
          else
            let searchTerm = drop 1 word;
                sanitizedSearchTerm = sanitise searchTerm;
                candidatesWithMatches =
                  filter (\<lambda>c. length (matches c) > 0)
                    (map (mkCandidate searchTerm sanitizedSearchTerm getMatchableStrings) coll)
            in if length candidatesWithMatches = 0 then None
               else (case js_sort (rank lc getMatchableStrings) candidatesWithMatches of
                       [] \<Rightarrow> None
                     | c # _ \<Rightarrow> Some (item c)))"

text \<open>
  What the platform promises of \<open>localeCompare\<close>, as of every comparator \<open>sort\<close>
  accepts: swapping the arguments swaps the sign, and "not after" is transitive.
\<close>

definition consistent_comparator :: "('a \<Rightarrow> 'a \<Rightarrow> int) \<Rightarrow> bool" where
  "consistent_comparator cmp =
     ((\<forall>a b. cmp a b < 0 \<longleftrightarrow> 0 < cmp b a) \<and>
      (\<forall>a b c. cmp a b \<le> 0 \<and> cmp b c \<le> 0 \<longrightarrow> cmp a c \<le> 0))"

text \<open>
  One consistent comparator of strings, to run the Matcher on given inputs: the order by
  code units, which is the order of \<open>localeCompare\<close> on digits and on letters of one case.
\<close>

fun codeUnitCompare :: "string \<Rightarrow> string \<Rightarrow> int" where
  "codeUnitCompare [] [] = 0"
| "codeUnitCompare [] (y # ys) = -1"
| "codeUnitCompare (x # xs) [] = 1"
| "codeUnitCompare (x # xs) (y # ys) =
     (if (of_char x :: nat) < of_char y then -1
      else if (of_char y :: nat) < of_char x then 1
      else codeUnitCompare xs ys)"

text \<open>The ranking of the Matcher in the words of its description.\<close>

definition qualifying :: "string \<Rightarrow> ('a \<Rightarrow> string option list) \<Rightarrow> 'a \<Rightarrow> string list" where
  "qualifying searchTerm getMatchableStrings it =
     filter (\<lambda>s. prefix (sanitise searchTerm) (sanitise s)) (filterBoolean (getMatchableStrings it))"

definition exactMatch :: "string \<Rightarrow> ('a \<Rightarrow> string option list) \<Rightarrow> 'a \<Rightarrow> bool" where
  "exactMatch searchTerm getMatchableStrings it =
     list_ex (\<lambda>s. sanitise s = sanitise searchTerm) (filterBoolean (getMatchableStrings it))"

text \<open>
  The primary matchable string of a candidate: the first of its matchable strings, and
  the empty string when that one is missing or empty.
\<close>

definition primaryString :: "('a \<Rightarrow> string option list) \<Rightarrow> 'a \<Rightarrow> string" where
  "primaryString getMatchableStrings it =
     (case filterBoolean (take 1 (getMatchableStrings it)) of [] \<Rightarrow> [] | s # _ \<Rightarrow> s)"

definition shortestQualifying :: "string \<Rightarrow> ('a \<Rightarrow> string option list) \<Rightarrow> 'a \<Rightarrow> nat" where
  "shortestQualifying searchTerm getMatchableStrings it =
     (case qualifying searchTerm getMatchableStrings it of
        [] \<Rightarrow> 0 | s # ss \<Rightarrow> fold min (map length ss) (length s))"

text \<open>The array \<open>candidatesWithMatches\<close> of \<open>findBestMatch\<close>, for the search term \<open>t\<close>.\<close>

definition candidatesWithMatches ::
  "string \<Rightarrow> ('a \<Rightarrow> string option list) \<Rightarrow> 'a list \<Rightarrow> 'a candidate list" where
  "candidatesWithMatches t g coll =
     filter (\<lambda>c. length (matches c) > 0) (map (mkCandidate t (sanitise t) g) coll)"

text \<open>
  For the empty search term: a candidate has a blank string when one of its matchable
  strings is not empty and normalizes to the empty string; its shortest string is the
  shortest of its non-empty matchable strings.
\<close>

definition hasBlankString :: "('a \<Rightarrow> string option list) \<Rightarrow> 'a \<Rightarrow> bool" where
  "hasBlankString getMatchableStrings it =
     list_ex (\<lambda>s. sanitise s = []) (filterBoolean (getMatchableStrings it))"

definition shortestString :: "('a \<Rightarrow> string option list) \<Rightarrow> 'a \<Rightarrow> nat" where
  "shortestString getMatchableStrings it =
     (case filterBoolean (getMatchableStrings it) of
        [] \<Rightarrow> 0 | s # ss \<Rightarrow> fold min (map length ss) (length s))"

section \<open>Entities\<close>

text \<open>
  The records of the metadata query. A property the query may leave \<open>null\<close> or
  \<open>undefined\<close> is an option; both read as \<open>None\<close>, since the program tells them
  apart nowhere (it tests with \<open>== null\<close>, \<open>!x\<close>, \<open>||\<close> and \<open>?.\<close>).
  \<open>team_createdAt\<close> is the time value of \<open>new Date(team.createdAt)\<close>.
  \<open>project_teams\<close> holds the ids of \<open>project.teams.nodes\<close>, \<open>None\<close> when
  \<open>teams\<close> or \<open>nodes\<close> is missing.
\<close>

record member =
  member_id :: string
  isMe :: bool

record team =
  team_id :: string
  team_key :: "string option"
  team_name :: "string option"
  team_createdAt :: int
  team_members :: "member list"

record project =
  project_id :: string
  project_name :: "string option"
  project_teams :: "string list option"

record user =
  user_id :: string
  user_name :: "string option"
  user_displayName :: "string option"
  user_email :: "string option"

record priority =
  label :: string
  priority_id :: int

definition priorities :: "priority list" where
  "priorities =
     [\<lparr>label = ''No priority'', priority_id = 0\<rparr>,
      \<lparr>label = ''urgent'', priority_id = 1\<rparr>,
      \<lparr>label = ''p0'', priority_id = 1\<rparr>,
      \<lparr>label = ''1'', priority_id = 1\<rparr>,
      \<lparr>label = ''u'', priority_id = 1\<rparr>,
      \<lparr>label = ''high'', priority_id = 2\<rparr>,
      \<lparr>label = ''p1'', priority_id = 2\<rparr>,
      \<lparr>label = ''2'', priority_id = 2\<rparr>,
      \<lparr>label = ''h'', priority_id = 2\<rparr>,
      \<lparr>label = ''medium'', priority_id = 3\<rparr>,
      \<lparr>label = ''p2'', priority_id = 3\<rparr>,
      \<lparr>label = ''3'', priority_id = 3\<rparr>,
      \<lparr>label = ''m'', priority_id = 3\<rparr>,
      \<lparr>label = ''low'', priority_id = 4\<rparr>,
      \<lparr>label = ''p3'', priority_id = 4\<rparr>,
      \<lparr>label = ''4'', priority_id = 4\<rparr>,
      \<lparr>label = ''l'', priority_id = 4\<rparr>]"

text \<open>
  The metadata object: the cached snapshot with the persisted choices and their
  timestamps, or the answer of the metadata query (then without choices), or
  \<open>{error: ...}\<close>.
\<close>

record metadata =
  teams :: "team list option"
  projects :: "project list option"
  users :: "user list option"
  teamsChoice :: "string option"
  projectsChoice :: "string option"
  usersChoice :: "string option"
  prioritiesChoice :: "int option"
  teamsChoiceTimestamp :: "int option"
  projectsChoiceTimestamp :: "int option"
  usersChoiceTimestamp :: "int option"
  prioritiesChoiceTimestamp :: "int option"
  error :: "string option"

text \<open>The \<open>results\<close> object of \<open>processParameters\<close>.\<close>

record results =
  teamId :: "string option"
  projectId :: "string option"
  assigneeId :: "string option"
  priorityId :: "int option"
  teamName :: "string option"
  projectName :: "string option"
  assigneeName :: "string option"
  priorityLabel :: "string option"
  unmatched :: "string list"

text \<open>
  Truthiness: \<open>null\<close>, \<open>undefined\<close>, the empty string and the number zero are
  falsy. \<open>a || b\<close> is \<open>a\<close> when \<open>a\<close> is truthy and \<open>b\<close> otherwise.
\<close>

definition truthy :: "string option \<Rightarrow> bool" where
  "truthy x = (case x of None \<Rightarrow> False | Some s \<Rightarrow> s \<noteq> [])"

definition truthy_num :: "int option \<Rightarrow> bool" where
  "truthy_num x = (case x of None \<Rightarrow> False | Some n \<Rightarrow> n \<noteq> 0)"

definition js_or :: "string option \<Rightarrow> string option \<Rightarrow> string option" where
  "js_or a b = (if truthy a then a else b)"

definition js_or_num :: "int option \<Rightarrow> int option \<Rightarrow> int option" where
  "js_or_num a b = (if truthy_num a then a else b)"

section \<open>The Input Parser\<close>

text \<open>\<^verbatim>\<open>input.replace(/^\s*ln\s*/, "")\<close>\<close>

definition stripCommand :: "string \<Rightarrow> string" where
  "stripCommand input =
     (let rest = dropWhile is_space input
      in if prefix ''ln'' rest then dropWhile is_space (drop 2 rest) else input)"

text \<open>\<^verbatim>\<open>s.split(" ")\<close>: a piece between any two spaces, the empty ones too.\<close>

fun split_space :: "string \<Rightarrow> string list" where
  "split_space [] = [[]]"
| "split_space (c # cs) =
     (if c = CHR '' '' then [] # split_space cs
      else (case split_space cs of [] \<Rightarrow> [[c]] | w # ws \<Rightarrow> (c # w) # ws))"

definition startsWithDash :: "string \<Rightarrow> bool" where
  "startsWithDash word = prefix ''-'' word"

definition parseInput :: "string \<Rightarrow> string list \<times> string list" where
  "parseInput input =
     (let inputWords = split_space (stripCommand input);
          paramWords = filter (\<lambda>word. startsWithDash word \<and> length word > 1) inputWords;
          titleWords = filter (\<lambda>word. \<not> startsWithDash word \<or> length word = 1) inputWords
      in (paramWords, titleWords))"

section \<open>The Parameter Resolver\<close>

datatype kind = Priorities | Users | Teams | Projects

definition processingOrder :: "kind list" where
  "processingOrder = [Priorities, Users, Teams, Projects]"

text \<open>\<^verbatim>\<open>user.email?.split("@")[0]\<close>\<close>

definition emailLocalPart :: "string option \<Rightarrow> string option" where
  "emailLocalPart email = map_option (takeWhile (\<lambda>c. c \<noteq> CHR ''@'')) email"

definition teamStrings :: "team \<Rightarrow> string option list" where
  "teamStrings t = [team_name t, team_key t]"

definition userStrings :: "user \<Rightarrow> string option list" where
  "userStrings u = [user_name u, user_displayName u, emailLocalPart (user_email u)]"

definition projectStrings :: "project \<Rightarrow> string option list" where
  "projectStrings p = [project_name p]"

definition priorityStrings :: "priority \<Rightarrow> string option list" where
  "priorityStrings p = [Some (label p)]"

text \<open>\<open>metadata?.xs || []\<close>\<close>

definition orEmpty :: "'a list option \<Rightarrow> 'a list" where
  "orEmpty xs = (case xs of None \<Rightarrow> [] | Some ys \<Rightarrow> ys)"

text \<open>
  \<open>results.teamId == null || project.teams?.nodes?.some((team) => team.id === results.teamId)\<close>
\<close>

definition ownedByTeam :: "string option \<Rightarrow> project \<Rightarrow> bool" where
  "ownedByTeam tid p =
     (tid = None \<or> (case project_teams p of None \<Rightarrow> False
                                            | Some nodes \<Rightarrow> list_ex (\<lambda>n. Some n = tid) nodes))"

text \<open>
  One turn of the inner loop's body: the match of \<open>word\<close> for the kind \<open>key\<close>, and,
  on a match, the setter of the kind applied to \<open>results\<close>.
\<close>

fun matchWord ::
  "(string \<Rightarrow> string \<Rightarrow> int) \<Rightarrow> metadata \<Rightarrow> kind \<Rightarrow> results \<Rightarrow> string \<Rightarrow> results option" where
  "matchWord lc md Projects r word =
     (let filteredProjects = filter (ownedByTeam (teamId r)) (orEmpty (projects md))
      in case findBestMatch lc word (Some filteredProjects) projectStrings of
           None \<Rightarrow> None
         | Some p \<Rightarrow> Some (r\<lparr>projectId := Some (project_id p), projectName := project_name p\<rparr>))"
| "matchWord lc md Teams r word =
     (case findBestMatch lc word (Some (orEmpty (teams md))) teamStrings of
        None \<Rightarrow> None
      | Some t \<Rightarrow> Some (r\<lparr>teamId := Some (team_id t), teamName := team_name t\<rparr>))"
| "matchWord lc md Users r word =
     (case findBestMatch lc word (Some (orEmpty (users md))) userStrings of
        None \<Rightarrow> None
      | Some u \<Rightarrow> Some (r\<lparr>assigneeId := Some (user_id u),
                            assigneeName := js_or (user_displayName u) (user_name u)\<rparr>))"
| "matchWord lc md Priorities r word =
     (case findBestMatch lc word (Some priorities) priorityStrings of
        None \<Rightarrow> None
      | Some p \<Rightarrow> Some (r\<lparr>priorityId := Some (priority_id p), priorityLabel := Some (label p)\<rparr>))"

text \<open>
  The inner loop \<open>for (let i = results.unmatched.length - 1; i >= 0; i--)\<close>: the
  argument \<open>Suc i\<close> stands for the index \<open>i\<close>, \<open>0\<close> for the end of the loop. On a match
  the word is spliced out and the loop breaks.
\<close>

fun scanWords ::
  "(string \<Rightarrow> string \<Rightarrow> int) \<Rightarrow> metadata \<Rightarrow> kind \<Rightarrow> nat \<Rightarrow> results \<Rightarrow> results" where
  "scanWords lc md key 0 r = r"
| "scanWords lc md key (Suc i) r =
     (case matchWord lc md key r (unmatched r ! i) of
        Some r' \<Rightarrow> r'\<lparr>unmatched := take i (unmatched r) @ drop (Suc i) (unmatched r)\<rparr>
      | None \<Rightarrow> scanWords lc md key i r)"

definition initialResults :: "string list \<Rightarrow> results" where
  "initialResults paramWords =
     \<lparr> teamId = None, projectId = None, assigneeId = None, priorityId = None,
       teamName = None, projectName = None, assigneeName = None, priorityLabel = None,
       unmatched = paramWords \<rparr>"

definition processParameters ::
  "(string \<Rightarrow> string \<Rightarrow> int) \<Rightarrow> string list \<Rightarrow> metadata \<Rightarrow> results" where
  "processParameters lc paramWords md =
     foldl (\<lambda>r key. scanWords lc md key (length (unmatched r)) r)
       (initialResults paramWords) processingOrder"

section \<open>The Default Applier\<close>

text \<open>
  \<^verbatim>\<open>metadata.teams?.filter((team) => team.members.nodes.some((member) => member.isMe))
     .sort((a, b) => new Date(a.createdAt) - new Date(b.createdAt))[0]?.id\<close>
\<close>

definition defaultTeamID :: "metadata \<Rightarrow> string option" where
  "defaultTeamID md =
     (case teams md of
        None \<Rightarrow> None
      | Some ts \<Rightarrow>
          (case js_sort (\<lambda>a b. team_createdAt a - team_createdAt b)
                  (filter (\<lambda>t. list_ex isMe (team_members t)) ts) of
             [] \<Rightarrow> None
           | t # _ \<Rightarrow> Some (team_id t)))"

text \<open>\<open>metadata.xs?.find((x) => x.id === id)\<close>, for an \<open>id\<close> that may be unset.\<close>

definition findById :: "('a \<Rightarrow> string) \<Rightarrow> string option \<Rightarrow> 'a list option \<Rightarrow> 'a option" where
  "findById ident i xs =
     (case xs of None \<Rightarrow> None | Some ys \<Rightarrow> find (\<lambda>x. Some (ident x) = i) ys)"

text \<open>The team and project fallbacks (the first \<open>if\<close> / \<open>else if\<close>).\<close>

definition teamProjectFallback :: "metadata \<Rightarrow> results \<Rightarrow> results" where
  "teamProjectFallback md r =
     (if teamId r = None \<and> projectId r = None
      then r\<lparr>projectId := projectsChoice md, teamId := teamsChoice md\<rparr>
      else if teamId r = None \<and> projectId r \<noteq> None
      then (case findById project_id (projectId r) (projects md) of
              None \<Rightarrow> r\<lparr>teamId := teamsChoice md\<rparr>
            | Some p \<Rightarrow>
                (case project_teams p of
                   None \<Rightarrow> r\<lparr>teamId := teamsChoice md\<rparr>
                 | Some [] \<Rightarrow> r\<lparr>teamId := teamsChoice md\<rparr>
                 | Some (n # _) \<Rightarrow> r\<lparr>teamId := Some n\<rparr>))
      else r)"

text \<open>\<open>if (!results.teamId && !results.projectId && defaultTeamID)\<close>\<close>

definition defaultTeamFallback :: "metadata \<Rightarrow> results \<Rightarrow> results" where
  "defaultTeamFallback md r =
     (if \<not> truthy (teamId r) \<and> \<not> truthy (projectId r) \<and> truthy (defaultTeamID md)
      then r\<lparr>teamId := defaultTeamID md\<rparr> else r)"

definition assigneeFallback :: "metadata \<Rightarrow> results \<Rightarrow> results" where
  "assigneeFallback md r = (if assigneeId r = None then r\<lparr>assigneeId := usersChoice md\<rparr> else r)"

definition priorityFallback :: "metadata \<Rightarrow> results \<Rightarrow> results" where
  "priorityFallback md r = (if priorityId r = None then r\<lparr>priorityId := prioritiesChoice md\<rparr> else r)"

text \<open>The names of the ids that came from the defaults.\<close>

definition lookupTeamName :: "metadata \<Rightarrow> results \<Rightarrow> results" where
  "lookupTeamName md r =
     (if truthy (teamId r) \<and> \<not> truthy (teamName r) \<and> teams md \<noteq> None
      then (case findById team_id (teamId r) (teams md) of
              None \<Rightarrow> r | Some t \<Rightarrow> r\<lparr>teamName := team_name t\<rparr>)
      else r)"

definition lookupProjectName :: "metadata \<Rightarrow> results \<Rightarrow> results" where
  "lookupProjectName md r =
     (if truthy (projectId r) \<and> \<not> truthy (projectName r) \<and> projects md \<noteq> None
      then (case findById project_id (projectId r) (projects md) of
              None \<Rightarrow> r | Some p \<Rightarrow> r\<lparr>projectName := project_name p\<rparr>)
      else r)"

definition lookupAssigneeName :: "metadata \<Rightarrow> results \<Rightarrow> results" where
  "lookupAssigneeName md r =
     (if truthy (assigneeId r) \<and> \<not> truthy (assigneeName r) \<and> users md \<noteq> None
      then (case findById user_id (assigneeId r) (users md) of
              None \<Rightarrow> r
            | Some u \<Rightarrow> r\<lparr>assigneeName := js_or (user_displayName u) (user_name u)\<rparr>)
      else r)"

text \<open>
  \<open>if (results.priorityId !== null)\<close>: an \<open>undefined\<close> id passes the test and then
  finds no priority, as a \<open>null\<close> one would.
\<close>

definition lookupPriorityLabel :: "results \<Rightarrow> results" where
  "lookupPriorityLabel r =
     (case priorityId r of
        None \<Rightarrow> r
      | Some n \<Rightarrow> (case find (\<lambda>p. priority_id p = n) priorities of
                     None \<Rightarrow> r | Some p \<Rightarrow> r\<lparr>priorityLabel := Some (label p)\<rparr>))"

definition applyDefaultPreferences :: "results \<Rightarrow> metadata \<Rightarrow> results" where
  "applyDefaultPreferences params md =
     (let r1 = teamProjectFallback md params;
          r2 = defaultTeamFallback md r1;
          r3 = assigneeFallback md r2;
          r4 = priorityFallback md r3;
          r5 = lookupTeamName md r4;
          r6 = lookupProjectName md r5;
          r7 = lookupAssigneeName md r6;
          r8 = lookupPriorityLabel r7
      in r8\<lparr>unmatched := unmatched params\<rparr>)"

section \<open>The Title Validator\<close>

text \<open>\<open>s.trim()\<close>\<close>

definition trim :: "string \<Rightarrow> string" where
  "trim s = rev (dropWhile is_space (rev (dropWhile is_space s)))"

text \<open>
  \<^verbatim>\<open>s.split(/\s+/)\<close>: the pieces between the maximal runs of whitespace; a run at
  either end leaves an empty piece there, and the empty string has one empty piece.
\<close>

function split_ws :: "string \<Rightarrow> string list" where
  "split_ws [] = [[]]"
| "split_ws (c # cs) =
     (if is_space c then [] # split_ws (dropWhile is_space cs)
      else (case split_ws cs of [] \<Rightarrow> [[c]] | w # ws \<Rightarrow> (c # w) # ws))"
  by pat_completeness auto
termination
  by (relation "measure length") (auto simp: length_dropWhile_le le_imp_less_Suc)

record validation =
  valid :: bool
  message :: "string option"

definition validateTitle :: "string \<Rightarrow> validation" where
  "validateTitle title =
     (if title = [] then \<lparr>valid = False, message = Some ''Please provide a title''\<rparr>
      else if length (split_ws (trim title)) = 1
      then \<lparr>valid = False,
            message = Some ''Please provide a more descriptive title with multiple words''\<rparr>
      else \<lparr>valid = True, message = None\<rparr>)"

text \<open>
  A title in the words of the description: it is whitespace-only when every character
  of it is whitespace, and a single word when, after the leading whitespace, a non-empty
  run of other characters is followed by whitespace only.
\<close>

definition whitespaceOnly :: "string \<Rightarrow> bool" where
  "whitespaceOnly title = list_all is_space title"

definition singleWord :: "string \<Rightarrow> bool" where
  "singleWord title =
     (let rest = dropWhile is_space title
      in takeWhile (\<lambda>c. \<not> is_space c) rest \<noteq> [] \<and>
         list_all is_space (dropWhile (\<lambda>c. \<not> is_space c) rest))"

section \<open>The Workflow Orchestrator\<close>

text \<open>\<open>words.join(" ")\<close>\<close>

fun join_space :: "string list \<Rightarrow> string" where
  "join_space [] = []"
| "join_space [w] = w"
| "join_space (w # ws) = w @ '' '' @ join_space ws"

record workflow =
  wf_metadata :: metadata
  wf_params :: results
  explicitChoices :: results
  wf_title :: string
  titleValidation :: validation

text \<open>
  \<open>processWorkflow\<close> from the metadata on: \<open>md\<close> is what
  \<open>await getUnifiedMetadata(linearToken)\<close> gave. \<open>Inl\<close> is the result \<open>{error}\<close>.
  \<open>explicitChoices\<close> holds the four ids of \<open>params\<close>.
\<close>

definition processWorkflow ::
  "(string \<Rightarrow> string \<Rightarrow> int) \<Rightarrow> string \<Rightarrow> metadata \<Rightarrow> string + workflow" where
  "processWorkflow lc input md =
     (let (paramWords, titleWords) = parseInput input
      in case js_or (error md) None of
           Some e \<Rightarrow> Inl e
         | None \<Rightarrow>
             let params = processParameters lc paramWords md;
                 finalParams = applyDefaultPreferences params md;
                 titleWords' = unmatched params @ titleWords;
                 title = join_space (map trim titleWords')
             in Inr \<lparr> wf_metadata = md, wf_params = finalParams, explicitChoices = params,
                      wf_title = title, titleValidation = validateTitle title \<rparr>)"

section \<open>The Preference Store\<close>

text \<open>
  The part of the world the store touches. \<open>cwd_ok\<close>: \<open>process.cwd()\<close> returns (it
  throws in a working directory that was removed). \<open>dir_exists\<close>: the \<open>user-data\<close>
  directory is there. \<open>mkdir_ok\<close> and \<open>write_ok\<close>: \<open>mkdirSync\<close> and
  \<open>writeFileSync\<close> would succeed. \<open>cache_file\<close>: the cache file. \<open>now\<close>: the reading of
  \<open>Date.now()\<close>. \<open>logged\<close>: the lines of the error log. \<open>launched\<close>: the tokens
  the background refresh was started with.
\<close>

datatype file_state = Missing | Unreadable | Content string

record world =
  cwd_ok :: bool
  dir_exists :: bool
  mkdir_ok :: bool
  write_ok :: bool
  cache_file :: file_state
  now :: int
  logged :: "string list"
  launched :: "string option list"

datatype js_error = Error string

text \<open>A computation that may throw: the exception or the value, and the world after it.\<close>

type_synonym 'a io = "world \<Rightarrow> (js_error + 'a) \<times> world"

definition io_return :: "'a \<Rightarrow> 'a io" where
  "io_return a = (\<lambda>w. (Inr a, w))"

definition io_throw :: "js_error \<Rightarrow> 'a io" where
  "io_throw e = (\<lambda>w. (Inl e, w))"

definition io_bind :: "'a io \<Rightarrow> ('a \<Rightarrow> 'b io) \<Rightarrow> 'b io" where
  "io_bind m f = (\<lambda>w. case m w of (Inl e, w') \<Rightarrow> (Inl e, w') | (Inr a, w') \<Rightarrow> f a w')"

text \<open>\<open>try { m } catch (e) { h e }\<close>\<close>

definition io_catch :: "'a io \<Rightarrow> (js_error \<Rightarrow> 'a io) \<Rightarrow> 'a io" where
  "io_catch m h = (\<lambda>w. case m w of (Inl e, w') \<Rightarrow> h e w' | (Inr a, w') \<Rightarrow> (Inr a, w'))"

text \<open>\<open>require("path").join(process.cwd(), "user-data")\<close>\<close>

definition userDataDir :: "unit io" where
  "userDataDir = (\<lambda>w. if cwd_ok w then (Inr (), w) else (Inl (Error ''ENOENT: process.cwd''), w))"

text \<open>\<open>if (!fs.existsSync(userDataDir)) fs.mkdirSync(userDataDir, { recursive: true })\<close>\<close>

definition ensureUserDataDir :: "unit io" where
  "ensureUserDataDir =
     (\<lambda>w. if dir_exists w then (Inr (), w)
          else if mkdir_ok w then (Inr (), w\<lparr>dir_exists := True\<rparr>)
          else (Inl (Error ''mkdir''), w))"

definition readFileSync :: "string io" where
  "readFileSync =
     (\<lambda>w. case cache_file w of
             Missing \<Rightarrow> (Inl (Error ''ENOENT: no such file or directory''), w)
           | Unreadable \<Rightarrow> (Inl (Error ''read''), w)
           | Content raw \<Rightarrow> (Inr raw, w))"

definition writeFileSync :: "string \<Rightarrow> unit io" where
  "writeFileSync raw =
     (\<lambda>w. if write_ok w then (Inr (), w\<lparr>cache_file := Content raw\<rparr>) else (Inl (Error ''write''), w))"

text \<open>
  Modelled from the spec: \<open>logError\<close>, of the module \<open>error-logger\<close>, is not among
  the sources. The spec has an unreadable cache recovered locally and never propagated:
  the call adds its line to the log and returns.
\<close>

definition logError :: "js_error \<Rightarrow> string \<Rightarrow> unit io" where
  "logError e ctx = (\<lambda>w. (Inr (), w\<lparr>logged := logged w @ [ctx]\<rparr>))"

text \<open>
  What \<open>JSON.parse\<close> makes of the file, as far as the program looks: a falsy value
  (\<open>null\<close>, \<open>false\<close>, \<open>0\<close>, \<open>""\<close>), another primitive (\<open>true\<close>, a number, a
  string), or an object, which is read through the properties of \<open>metadata\<close> only.
  \<open>JSON.parse\<close> and \<open>JSON.stringify\<close> belong to the platform: they are the
  parameters \<open>parse\<close> (\<open>None\<close> when it throws a SyntaxError) and \<open>stringify\<close>.
\<close>

datatype cache_value = Falsy | Primitive | Object metadata

definition emptyPrefs :: metadata where
  "emptyPrefs =
     \<lparr> teams = None, projects = None, users = None,
       teamsChoice = None, projectsChoice = None, usersChoice = None, prioritiesChoice = None,
       teamsChoiceTimestamp = None, projectsChoiceTimestamp = None,
       usersChoiceTimestamp = None, prioritiesChoiceTimestamp = None, error = None \<rparr>"

definition jsonParse :: "(string \<Rightarrow> cache_value option) \<Rightarrow> string \<Rightarrow> cache_value io" where
  "jsonParse parse raw =
     (case parse raw of None \<Rightarrow> io_throw (Error ''SyntaxError'') | Some v \<Rightarrow> io_return v)"

text \<open>
  \<open>savedPrefs.teams = savedPrefs.teams || []\<close> and its two siblings, for a truthy
  \<open>savedPrefs\<close>. The module is not in strict mode, so on a primitive the three
  assignments do nothing.
\<close>

definition ensureArrays :: "cache_value \<Rightarrow> cache_value" where
  "ensureArrays v =
     (case v of
        Falsy \<Rightarrow> Falsy
      | Primitive \<Rightarrow> Primitive
      | Object m \<Rightarrow>
          Object (m\<lparr>teams := Some (orEmpty (teams m)),
                    projects := Some (orEmpty (projects m)),
                    users := Some (orEmpty (users m))\<rparr>))"

text \<open>\<open>savedPrefs || {}\<close>; \<open>savedPrefs\<close> starts as \<open>null\<close>.\<close>

definition orEmptyObject :: "cache_value \<Rightarrow> cache_value" where
  "orEmptyObject v = (case v of Falsy \<Rightarrow> Object emptyPrefs | _ \<Rightarrow> v)"

definition readPrefs :: "(string \<Rightarrow> cache_value option) \<Rightarrow> cache_value io" where
  "readPrefs parse =
     io_catch
       (io_bind userDataDir (\<lambda>_.
        io_bind ensureUserDataDir (\<lambda>_.
        io_bind (io_catch (io_bind readFileSync (jsonParse parse)) (\<lambda>e. io_return Falsy))
          (\<lambda>savedPrefs. io_return (orEmptyObject (ensureArrays savedPrefs))))))
       (\<lambda>e. io_bind (logError e ''readPrefs'') (\<lambda>_. io_return (Object emptyPrefs)))"

text \<open>\<open>x || null\<close>\<close>

definition orNull :: "string option \<Rightarrow> string option" where
  "orNull x = js_or x None"

definition orNull_num :: "int option \<Rightarrow> int option" where
  "orNull_num x = js_or_num x None"

text \<open>
  The object \<open>prefsWithTimestamps\<close> of \<open>writePrefs\<close>; \<open>t\<close> is the reading of
  \<open>Date.now()\<close>.
\<close>

definition prefsWithTimestamps :: "int \<Rightarrow> metadata \<Rightarrow> metadata" where
  "prefsWithTimestamps t prefs =
     prefs\<lparr> teamsChoice := orNull (teamsChoice prefs),
            projectsChoice := orNull (projectsChoice prefs),
            usersChoice := orNull (usersChoice prefs),
            prioritiesChoice := orNull_num (prioritiesChoice prefs),
            teamsChoiceTimestamp :=
              (if truthy (teamsChoice prefs) then Some t
               else orNull_num (teamsChoiceTimestamp prefs)),
            projectsChoiceTimestamp :=
              (if truthy (projectsChoice prefs) then Some t
               else orNull_num (projectsChoiceTimestamp prefs)),
            usersChoiceTimestamp :=
              (if truthy (usersChoice prefs) then Some t
               else orNull_num (usersChoiceTimestamp prefs)),
            prioritiesChoiceTimestamp :=
              (if truthy_num (prioritiesChoice prefs) then Some t
               else orNull_num (prioritiesChoiceTimestamp prefs)) \<rparr>"

definition writePrefs :: "(bool \<Rightarrow> metadata \<Rightarrow> string) \<Rightarrow> metadata \<Rightarrow> bool \<Rightarrow> metadata io" where
  "writePrefs stringify prefs isDryRun =
     (\<lambda>w. let p = prefsWithTimestamps (now w) prefs
          in io_bind userDataDir (\<lambda>_.
             io_bind ensureUserDataDir (\<lambda>_.
             io_bind (writeFileSync (stringify isDryRun p)) (\<lambda>_. io_return p))) w)"


section \<open>The unified metadata\<close>

text \<open>\<open>!metadata.xs?.length\<close>\<close>

definition noLength :: "'a list option \<Rightarrow> bool" where
  "noLength xs = (case xs of None \<Rightarrow> True | Some ys \<Rightarrow> length ys = 0)"

definition stale :: "cache_value \<Rightarrow> bool" where
  "stale v =
     (case v of
        Falsy \<Rightarrow> True
      | Primitive \<Rightarrow> True
      | Object m \<Rightarrow> noLength (teams m) \<or> noLength (projects m) \<or> noLength (users m))"

text \<open>The cached object as the caller reads it: a primitive has none of the properties.\<close>

definition asMetadata :: "cache_value \<Rightarrow> metadata" where
  "asMetadata v = (case v of Object m \<Rightarrow> m | _ \<Rightarrow> emptyPrefs)"

text \<open>
  Modelled from the spec: \<open>createLinearIssueCacheAsync\<close>, of the module
  \<open>create-linear-issue-cache-async\<close>, is not among the sources. The spec has it start a
  background re-fetch that is not awaited and whose errors never reach the current run:
  the call records the launch, lets the refresh act on the world as \<open>refresh\<close> says, and
  returns nothing to its caller.
\<close>

definition createLinearIssueCacheAsync ::
  "(world \<Rightarrow> world) \<Rightarrow> string option \<Rightarrow> unit io" where
  "createLinearIssueCacheAsync refresh linearToken =
     (\<lambda>w. (Inr (), refresh (w\<lparr>launched := launched w @ [linearToken]\<rparr>)))"

text \<open>
  \<open>getUnifiedMetadata\<close>. \<open>getMetadata\<close> catches its own errors and answers with the
  entity lists or with \<open>{error}\<close>: the answer of the network is the parameter
  \<open>getMetadata\<close>.
\<close>

definition getUnifiedMetadata ::
  "(string \<Rightarrow> cache_value option) \<Rightarrow> (bool \<Rightarrow> metadata \<Rightarrow> string) \<Rightarrow>
   (string option \<Rightarrow> metadata) \<Rightarrow> (world \<Rightarrow> world) \<Rightarrow> string option \<Rightarrow> metadata io" where
  "getUnifiedMetadata parse stringify getMetadata refresh linearToken =
     io_bind (readPrefs parse) (\<lambda>cached.
       if stale cached
       then (let fetched = getMetadata linearToken
             in io_bind (writePrefs stringify fetched False) (\<lambda>_. io_return fetched))
       else io_bind (createLinearIssueCacheAsync refresh linearToken)
              (\<lambda>_. io_return (asMetadata cached)))"

section \<open>A store to run the examples on\<close>

text \<open>
  The snapshot of one team, one project and one user, with the team chosen at time 100;
  a parser that knows the text of this snapshot and the text \<open>null\<close>; and a world in
  which everything succeeds, at time 500.
\<close>

definition sampleSnapshot :: metadata where
  "sampleSnapshot =
     emptyPrefs\<lparr> teams := Some [\<lparr>team_id = ''T1'', team_key = Some ''ENG'',
                                  team_name = Some ''Engineering'', team_createdAt = 5,
                                  team_members = [\<lparr>member_id = ''U1'', isMe = True\<rparr>]\<rparr>],
                projects := Some [\<lparr>project_id = ''P1'', project_name = Some ''Website'',
                                     project_teams = Some [''T1'']\<rparr>],
                users := Some [\<lparr>user_id = ''U1'', user_name = Some ''Uma'',
                                  user_displayName = Some ''u'', user_email = Some ''uma@x.io''\<rparr>],
                teamsChoice := Some ''T1'', teamsChoiceTimestamp := Some 100 \<rparr>"

definition sampleParse :: "string \<Rightarrow> cache_value option" where
  "sampleParse raw =
     (if raw = ''snapshot'' then Some (Object sampleSnapshot)
      else if raw = ''null'' then Some Falsy
      else None)"

definition sampleWorld :: world where
  "sampleWorld =
     \<lparr> cwd_ok = True, dir_exists = True, mkdir_ok = True, write_ok = True,
       cache_file = Content ''snapshot'', now = 500, logged = [], launched = [] \<rparr>"


text \<open>The same snapshot with two users that both go by the alias \<open>u\<close>.\<close>

definition twoAliasSnapshot :: metadata where
  "twoAliasSnapshot =
     sampleSnapshot\<lparr> users := Some [\<lparr>user_id = ''U1'', user_name = Some ''Zed'',
                                         user_displayName = Some ''u'', user_email = None\<rparr>,
                                        \<lparr>user_id = ''U2'', user_name = Some ''Amy'',
                                         user_displayName = Some ''U'', user_email = None\<rparr>] \<rparr>"

text \<open>
  The same snapshot with three projects, two of them of the id \<open>P1\<close>, and no project
  first in the list that is of this id.
\<close>

definition threeProjectSnapshot :: metadata where
  "threeProjectSnapshot =
     sampleSnapshot\<lparr> teamsChoice := Some ''T9'',
                     projects := Some [\<lparr>project_id = ''P0'', project_name = Some ''Docs'',
                                         project_teams = Some [''T0'']\<rparr>,
                                        \<lparr>project_id = ''P1'', project_name = Some ''Website'',
                                         project_teams = Some [''T1'', ''T2'']\<rparr>,
                                        \<lparr>project_id = ''P1'', project_name = Some ''Mirror'',
                                         project_teams = Some [''T3'']\<rparr>,
                                        \<lparr>project_id = ''P2'', project_name = Some ''Orphan'',
                                         project_teams = Some []\<rparr>] \<rparr>"

section \<open>Properties of the Normalizer and of the sort\<close>

lemma toLowerCase_char_code_unit:
  "is_upper c \<Longrightarrow> (of_char (toLowerCase_char c) :: nat) = of_char c + 32"
proof (cases c)
  case (Char b0 b1 b2 b3 b4 b5 b6 b7)
  assume "is_upper c"
  with Char show ?thesis
    by (cases b5; cases b6; cases b7; cases b4; cases b3; cases b2; cases b1; cases b0)
       (simp_all add: toLowerCase_char_def is_upper_def Let_def)
qed

lemma sanitise_example: "sanitise ''Front_End Team-2'' = ''frontendteam2''"
  by code_simp

lemma set_js_insert: "set (js_insert cmp x ys) = insert x (set ys)"
  by (induction ys) auto

lemma set_js_sort: "set (js_sort cmp xs) = set xs"
  by (induction xs) (simp_all add: js_sort_def set_js_insert)

lemma js_sort_Cons: "js_sort cmp (x # xs) = js_insert cmp x (js_sort cmp xs)"
  by (simp add: js_sort_def)

lemma js_sort_Nil: "js_sort cmp [] = []"
  by (simp add: js_sort_def)

lemma length_js_insert: "length (js_insert cmp x ys) = Suc (length ys)"
  by (induction ys) auto

lemma length_js_sort: "length (js_sort cmp xs) = length xs"
  by (induction xs) (simp_all add: js_sort_def length_js_insert)

lemma js_insert_sorted:
  assumes tot: "\<And>a b. 0 < cmp a b \<Longrightarrow> cmp b a \<le> 0"
    and trans: "\<And>a b c. cmp a b \<le> 0 \<Longrightarrow> cmp b c \<le> 0 \<Longrightarrow> cmp a c \<le> 0"
  shows "sorted_wrt (\<lambda>a b. cmp a b \<le> 0) ys \<Longrightarrow>
         sorted_wrt (\<lambda>a b. cmp a b \<le> 0) (js_insert cmp x ys)"
proof (induction ys)
  case Nil
  then show ?case by simp
next
  case (Cons y ys)
  show ?case
  proof (cases "cmp x y \<le> 0")
    case True
    have "\<forall>z\<in>set ys. cmp x z \<le> 0"
      using Cons.prems trans [OF True] by auto
    with True Cons.prems show ?thesis by simp
  next
    case False
    then have "cmp y x \<le> 0" using tot [of x y] by linarith
    with False Cons show ?thesis by (auto simp: set_js_insert)
  qed
qed

lemma js_sort_sorted:
  assumes tot: "\<And>a b. 0 < cmp a b \<Longrightarrow> cmp b a \<le> 0"
    and trans: "\<And>a b c. cmp a b \<le> 0 \<Longrightarrow> cmp b c \<le> 0 \<Longrightarrow> cmp a c \<le> 0"
  shows "sorted_wrt (\<lambda>a b. cmp a b \<le> 0) (js_sort cmp xs)"
proof (induction xs)
  case Nil
  then show ?case by (simp add: js_sort_def)
next
  case (Cons x xs)
  have "sorted_wrt (\<lambda>a b. cmp a b \<le> 0) (js_insert cmp x (js_sort cmp xs))"
    by (rule js_insert_sorted) (fact tot, fact trans, fact Cons.IH)
  then show ?case by (simp add: js_sort_Cons)
qed

lemma js_sort_head_least:
  assumes tot: "\<And>a b. 0 < cmp a b \<Longrightarrow> cmp b a \<le> 0"
    and trans: "\<And>a b c. cmp a b \<le> 0 \<Longrightarrow> cmp b c \<le> 0 \<Longrightarrow> cmp a c \<le> 0"
    and ne: "xs \<noteq> []"
  shows "\<exists>h t. js_sort cmp xs = h # t \<and> h \<in> set xs \<and> (\<forall>x\<in>set xs. cmp h x \<le> 0)"
  using ne
proof (induction xs)
  case Nil
  then show ?case by simp
next
  case (Cons x xs)
  have refl: "cmp x x \<le> 0"
    using tot [of x x] by linarith
  show ?case
  proof (cases "xs = []")
    case True
    then show ?thesis using refl by (simp add: js_sort_def)
  next
    case False
    from Cons.IH [OF False] obtain h t where
      ht: "js_sort cmp xs = h # t" "h \<in> set xs" "\<forall>y\<in>set xs. cmp h y \<le> 0"
      by blast
    show ?thesis
    proof (cases "cmp x h \<le> 0")
      case True
      have "\<forall>y\<in>set xs. cmp x y \<le> 0"
        using ht(3) trans [OF True] by blast
      with True refl ht(1) show ?thesis
        by (simp add: js_sort_Cons)
    next
      case False
      then have "cmp h x \<le> 0" using tot [of x h] by linarith
      with False ht show ?thesis
        by (simp add: js_sort_Cons)
    qed
  qed
qed

subsection \<open>The candidate record in terms of the description\<close>

lemma isFuzzy_mkMatch: "isFuzzy (mkMatch t (sanitise t) s) = prefix (sanitise t) (sanitise s)"
  by (simp add: mkMatch_def fuzzyMatch_def)

lemma isExact_mkMatch: "isExact (mkMatch t (sanitise t) s) = (sanitise s = sanitise t)"
  by (simp add: mkMatch_def)

lemma original_mkMatch: "original (mkMatch t q s) = s"
  by (simp add: mkMatch_def)

lemma exact_or_fuzzy: 
  "(isExact (mkMatch t (sanitise t) s) \<or> isFuzzy (mkMatch t (sanitise t) s)) = prefix (sanitise t) (sanitise s)"
  by (auto simp: isFuzzy_mkMatch isExact_mkMatch)

lemma filter_matches:
  "filter (\<lambda>m. isExact m \<or> isFuzzy m) (map (mkMatch t (sanitise t)) ss) =
   map (mkMatch t (sanitise t)) (filter (\<lambda>s. prefix (sanitise t) (sanitise s)) ss)"
  by (induction ss) (simp_all add: exact_or_fuzzy)

lemma item_mkCandidate: "item (mkCandidate t q g x) = x"
  by (simp add: mkCandidate_def Let_def)

lemma matches_mkCandidate:
  "matches (mkCandidate t (sanitise t) g x) = map (mkMatch t (sanitise t)) (qualifying t g x)"
  by (simp add: mkCandidate_def Let_def filter_matches qualifying_def)

lemma hasExactMatch_mkCandidate:
  "hasExactMatch (mkCandidate t (sanitise t) g x) = exactMatch t g x"
  by (simp add: mkCandidate_def Let_def exactMatch_def list_ex_iff isExact_mkMatch)

lemma shortestMatchLength_mkCandidate:
  "shortestMatchLength (mkCandidate t (sanitise t) g x) =
     (if qualifying t g x = [] then None else Some (shortestQualifying t g x))"
  by (simp add: mkCandidate_def Let_def filter_matches qualifying_def [symmetric] math_min_def
      shortestQualifying_def comp_def original_mkMatch split: list.splits)

lemma fold_min_le: "fold min ns (n::nat) \<le> n \<and> (\<forall>k\<in>set ns. fold min ns n \<le> k)"
proof (induction ns arbitrary: n)
  case Nil
  then show ?case by simp
next
  case (Cons a ns)
  have "fold min ns (min a n) \<le> min a n" using Cons.IH by blast
  then show ?case using Cons.IH [of "min a n"] by auto
qed

lemma fold_min_in: "fold min ns (n::nat) \<in> insert n (set ns)"
proof (induction ns arbitrary: n)
  case Nil
  then show ?case by simp
next
  case (Cons a ns)
  have "min a n = a \<or> min a n = n" by linarith
  then show ?case using Cons.IH [of "min a n"] by auto
qed

lemma shortestQualifying_least:
  "s \<in> set (qualifying t g x) \<Longrightarrow> shortestQualifying t g x \<le> length s"
  using fold_min_le by (fastforce simp: shortestQualifying_def split: list.splits)

lemma shortestQualifying_attained:
  "qualifying t g x \<noteq> [] \<Longrightarrow> \<exists>s\<in>set (qualifying t g x). length s = shortestQualifying t g x"
proof -
  assume "qualifying t g x \<noteq> []"
  then obtain s ss where q: "qualifying t g x = s # ss" by (cases "qualifying t g x") auto
  have "fold min (map length ss) (length s) \<in> insert (length s) (set (map length ss))"
    by (rule fold_min_in)
  then show ?thesis by (auto simp: shortestQualifying_def q)
qed

subsection \<open>The comparator is consistent when \<open>localeCompare\<close> is\<close>

lemma lengthDiff_neg: "lengthDiff a b < 0 \<longleftrightarrow> 0 < lengthDiff b a"
  by (cases a; cases b) auto

lemma lengthDiff_zero: "lengthDiff a b = 0 \<longleftrightarrow> a = b"
  by (cases a; cases b) auto

lemma lengthDiff_trans: "lengthDiff a b \<le> 0 \<Longrightarrow> lengthDiff b c \<le> 0 \<Longrightarrow> lengthDiff a c \<le> 0"
  by (cases a; cases b; cases c) auto

lemma rank_le_iff:
  "rank lc g a b \<le> 0 \<longleftrightarrow>
     (hasExactMatch a \<and> \<not> hasExactMatch b) \<or>
     (hasExactMatch a = hasExactMatch b \<and>
        (lengthDiff (shortestMatchLength a) (shortestMatchLength b) < 0 \<or>
         (shortestMatchLength a = shortestMatchLength b \<and>
          (shortestMatchLength a = None \<or>
           lc (primaryName (g (item a))) (primaryName (g (item b))) \<le> 0))))"
  using lengthDiff_zero [of "shortestMatchLength a" "shortestMatchLength b"]
  by (auto simp: rank_def Let_def)

lemma lengthDiff_cases: "lengthDiff a b < 0 \<or> a = b \<or> lengthDiff b a < 0"
proof (cases a)
  case None
  then show ?thesis by (cases b) simp_all
next
  case (Some x)
  then show ?thesis
  proof (cases b)
    case None
    with Some show ?thesis by simp
  next
    case (Some y)
    have "x < y \<or> x = y \<or> y < x" by linarith
    with Some \<open>a = Some x\<close> show ?thesis by auto
  qed
qed

lemma lengthDiff_less_trans:
  "lengthDiff a b < 0 \<Longrightarrow> lengthDiff b c < 0 \<Longrightarrow> lengthDiff a c < 0"
  by (cases a; cases b; cases c) auto

lemma rank_total:
  assumes "consistent_comparator lc" and "0 < rank lc g a b"
  shows "rank lc g b a \<le> 0"
proof -
  from assms(1) have "\<And>x y. lc x y < 0 \<longleftrightarrow> 0 < lc y x"
    unfolding consistent_comparator_def by blast
  then have sw: "\<And>x y. lc x y \<le> 0 \<or> lc y x \<le> 0"
    by (metis less_le_not_le linorder_not_le)
  have n: "\<not> rank lc g a b \<le> 0" using assms(2) by simp
  show ?thesis
    using n lengthDiff_cases [of "shortestMatchLength a" "shortestMatchLength b"]
      sw [of "primaryName (g (item a))" "primaryName (g (item b))"]
    unfolding rank_le_iff by auto
qed

lemma rank_trans:
  assumes "consistent_comparator lc" and "rank lc g a b \<le> 0" and "rank lc g b c \<le> 0"
  shows "rank lc g a c \<le> 0"
proof -
  from assms(1) have tr: "\<And>x y z. lc x y \<le> 0 \<Longrightarrow> lc y z \<le> 0 \<Longrightarrow> lc x z \<le> 0"
    unfolding consistent_comparator_def by blast
  show ?thesis
    using assms(2,3)
      tr [of "primaryName (g (item a))" "primaryName (g (item b))" "primaryName (g (item c))"]
      lengthDiff_less_trans [of "shortestMatchLength a" "shortestMatchLength b" "shortestMatchLength c"]
    unfolding rank_le_iff by auto
qed

subsection \<open>The result of the Matcher\<close>

lemma findBestMatch_unfold:
  "word \<noteq> [] \<Longrightarrow>
   findBestMatch lc word (Some coll) g =
     (case js_sort (rank lc g) (candidatesWithMatches (drop 1 word) g coll) of
        [] \<Rightarrow> None | c # _ \<Rightarrow> Some (item c))"
  by (auto simp: findBestMatch_def candidatesWithMatches_def Let_def js_sort_Nil)

lemma set_candidatesWithMatches:
  "set (candidatesWithMatches t g coll) =
     mkCandidate t (sanitise t) g ` {x \<in> set coll. qualifying t g x \<noteq> []}"
  by (auto simp: candidatesWithMatches_def matches_mkCandidate)

lemma findBestMatch_none:
  assumes "word \<noteq> []" and "\<forall>x\<in>set coll. qualifying (drop 1 word) g x = []"
  shows "findBestMatch lc word (Some coll) g = None"
proof -
  have "set (candidatesWithMatches (drop 1 word) g coll) = {}"
    using assms(2) by (auto simp: set_candidatesWithMatches)
  then have "candidatesWithMatches (drop 1 word) g coll = []" by simp
  then show ?thesis using assms(1) by (simp add: findBestMatch_unfold js_sort_Nil)
qed

lemma findBestMatch_least:
  assumes lc: "consistent_comparator lc" and w: "word \<noteq> []"
    and q: "x \<in> set coll" "qualifying (drop 1 word) g x \<noteq> []"
  shows "\<exists>r. findBestMatch lc word (Some coll) g = Some r \<and> r \<in> set coll \<and>
             qualifying (drop 1 word) g r \<noteq> [] \<and>
             (\<forall>c\<in>set coll. qualifying (drop 1 word) g c \<noteq> [] \<longrightarrow>
                rank lc g (mkCandidate (drop 1 word) (sanitise (drop 1 word)) g r)
                          (mkCandidate (drop 1 word) (sanitise (drop 1 word)) g c) \<le> 0)"
proof -
  define t where "t = drop 1 word"
  define cands where "cands = candidatesWithMatches t g coll"
  have ne: "cands \<noteq> []"
    using q by (auto simp: cands_def t_def set_candidatesWithMatches simp flip: set_empty)
  have tot: "\<And>a b. 0 < rank lc g a b \<Longrightarrow> rank lc g b a \<le> 0"
    by (rule rank_total [OF lc])
  have trans: "\<And>a b c. rank lc g a b \<le> 0 \<Longrightarrow> rank lc g b c \<le> 0 \<Longrightarrow> rank lc g a c \<le> 0"
    by (rule rank_trans [OF lc])
  have "\<exists>h tl. js_sort (rank lc g) cands = h # tl \<and> h \<in> set cands \<and>
      (\<forall>c\<in>set cands. rank lc g h c \<le> 0)"
    by (rule js_sort_head_least) (fact tot, fact trans, fact ne)
  then obtain h tl where h: "js_sort (rank lc g) cands = h # tl" "h \<in> set cands"
    "\<forall>c\<in>set cands. rank lc g h c \<le> 0"
    by blast
  from h(2) obtain r where r: "h = mkCandidate t (sanitise t) g r" "r \<in> set coll"
    "qualifying t g r \<noteq> []"
    by (auto simp: cands_def set_candidatesWithMatches)
  have "findBestMatch lc word (Some coll) g = Some r"
    using w h(1) r(1) by (simp add: findBestMatch_unfold cands_def t_def item_mkCandidate)
  moreover have "\<forall>c\<in>set coll. qualifying t g c \<noteq> [] \<longrightarrow>
      rank lc g (mkCandidate t (sanitise t) g r) (mkCandidate t (sanitise t) g c) \<le> 0"
    using h(3) r(1) by (auto simp: cands_def set_candidatesWithMatches)
  ultimately show ?thesis using r(2,3) unfolding t_def by blast
qed

lemma primaryName_eq: "primaryName (g x) = primaryString g x"
proof (cases "g x")
  case Nil
  then show ?thesis by (simp add: primaryName_def primaryString_def filterBoolean_def)
next
  case (Cons a as)
  then show ?thesis
    by (cases a) (simp_all add: primaryName_def primaryString_def filterBoolean_def)
qed

lemma rank_mkCandidate:
  assumes "qualifying t g r \<noteq> []" and "qualifying t g c \<noteq> []"
    and "rank lc g (mkCandidate t (sanitise t) g r) (mkCandidate t (sanitise t) g c) \<le> 0"
  shows "(exactMatch t g c \<longrightarrow> exactMatch t g r) \<and>
         (exactMatch t g c = exactMatch t g r \<longrightarrow>
            shortestQualifying t g r \<le> shortestQualifying t g c \<and>
            (shortestQualifying t g r = shortestQualifying t g c \<longrightarrow>
               lc (primaryString g r) (primaryString g c) \<le> 0))"
  using assms
  by (auto simp: rank_le_iff hasExactMatch_mkCandidate shortestMatchLength_mkCandidate
      item_mkCandidate primaryName_eq)

lemmas eval_defs = findBestMatch_def mkCandidate_def mkMatch_def rank_def primaryName_def
  math_min_def filterBoolean_def js_sort_def fuzzyMatch_def sanitise_def toLowerCase_def
  toLowerCase_char_def is_upper_def is_space_def Let_def

subsection \<open>A collation to run the Matcher with\<close>

lemma codeUnitCompare_swap: "codeUnitCompare a b < 0 \<longleftrightarrow> 0 < codeUnitCompare b a"
proof (induction a b rule: codeUnitCompare.induct)
  case (4 x xs y ys)
  then show ?case by (simp del: of_char_eq_iff)
qed simp_all

lemma codeUnitCompare_trans:
  "codeUnitCompare a b \<le> 0 \<Longrightarrow> codeUnitCompare b c \<le> 0 \<Longrightarrow> codeUnitCompare a c \<le> 0"
proof (induction a b arbitrary: c rule: codeUnitCompare.induct)
  case 1
  then show ?case by simp
next
  case (2 y ys)
  then show ?case by (cases c) simp_all
next
  case (3 x xs)
  then show ?case by simp
next
  case (4 x xs y ys)
  show ?case
  proof (cases c)
    case Nil
    with 4 show ?thesis by (simp split: if_splits)
  next
    case (Cons z zs)
    define p q r where "p = (of_char x :: nat)" and "q = (of_char y :: nat)" and "r = (of_char z :: nat)"
    from "4.prems"(1) have xy: "p < q \<or> (p = q \<and> codeUnitCompare xs ys \<le> 0)"
      unfolding p_def q_def by (simp split: if_splits)
    from "4.prems"(2) Cons have yz: "q < r \<or> (q = r \<and> codeUnitCompare ys zs \<le> 0)"
      unfolding r_def q_def by (simp split: if_splits)
    show ?thesis
    proof (cases "p = q \<and> q = r")
      case True
      then have "codeUnitCompare xs ys \<le> 0" "codeUnitCompare ys zs \<le> 0"
        using xy yz by auto
      with "4.IH" [of zs] True have "codeUnitCompare xs zs \<le> 0"
        unfolding p_def q_def by simp
      with True Cons show ?thesis unfolding p_def q_def r_def by simp
    next
      case False
      with xy yz have "p < r" by auto
      then show ?thesis using Cons unfolding p_def r_def by simp
    qed
  qed
qed

lemma consistent_codeUnitCompare: "consistent_comparator codeUnitCompare"
  unfolding consistent_comparator_def
  using codeUnitCompare_swap codeUnitCompare_trans by blast

subsection \<open>The ranking\<close>

text \<open>
  C1. For a token and a list of candidates of which one qualifies, \<open>findBestMatch\<close> returns
  a qualifying candidate \<open>r\<close> of the list that no qualifying candidate \<open>c\<close> beats: if \<open>c\<close>
  has an exact normalized match, so has \<open>r\<close>, whatever the lengths of the strings; if
  both or neither have one, the shortest qualifying string of \<open>r\<close> is no longer than that
  of \<open>c\<close>; and if these are equally long, the primary string of \<open>r\<close>, the first of its
  matchable strings, does not come after that of \<open>c\<close> in the order of \<open>localeCompare\<close>. With no qualifying candidate the result
  is none. For the candidates \<open>m\<close> and \<open>medium\<close> and the search term \<open>m\<close>, the exact
  candidate \<open>m\<close> is returned.
\<close>

theorem findBestMatch_ranking:
  assumes "consistent_comparator lc" and "word \<noteq> []"
  shows "(if list_ex (\<lambda>c. qualifying (drop 1 word) g c \<noteq> []) coll
          then \<exists>r. findBestMatch lc word (Some coll) g = Some r \<and> r \<in> set coll \<and>
                 qualifying (drop 1 word) g r \<noteq> [] \<and>
                 (\<forall>c\<in>set coll. qualifying (drop 1 word) g c \<noteq> [] \<longrightarrow>
                    (exactMatch (drop 1 word) g c \<longrightarrow> exactMatch (drop 1 word) g r) \<and>
                    (exactMatch (drop 1 word) g c = exactMatch (drop 1 word) g r \<longrightarrow>
                       shortestQualifying (drop 1 word) g r \<le> shortestQualifying (drop 1 word) g c \<and>
                       (shortestQualifying (drop 1 word) g r = shortestQualifying (drop 1 word) g c \<longrightarrow>
                          lc (primaryString g r) (primaryString g c) \<le> 0)))
          else findBestMatch lc word (Some coll) g = None) \<and>
         findBestMatch lc ''-m'' (Some [''m'', ''medium'']) (\<lambda>s. [Some s]) = Some ''m''"
proof (intro conjI)
  show "findBestMatch lc ''-m'' (Some [''m'', ''medium'']) (\<lambda>s. [Some s]) = Some ''m''"
    by (simp add: eval_defs)
next
  define t where "t = drop 1 word"
  show "if list_ex (\<lambda>c. qualifying (drop 1 word) g c \<noteq> []) coll
          then \<exists>r. findBestMatch lc word (Some coll) g = Some r \<and> r \<in> set coll \<and>
                 qualifying (drop 1 word) g r \<noteq> [] \<and>
                 (\<forall>c\<in>set coll. qualifying (drop 1 word) g c \<noteq> [] \<longrightarrow>
                    (exactMatch (drop 1 word) g c \<longrightarrow> exactMatch (drop 1 word) g r) \<and>
                    (exactMatch (drop 1 word) g c = exactMatch (drop 1 word) g r \<longrightarrow>
                       shortestQualifying (drop 1 word) g r \<le> shortestQualifying (drop 1 word) g c \<and>
                       (shortestQualifying (drop 1 word) g r = shortestQualifying (drop 1 word) g c \<longrightarrow>
                          lc (primaryString g r) (primaryString g c) \<le> 0)))
          else findBestMatch lc word (Some coll) g = None"
  proof (cases "list_ex (\<lambda>c. qualifying (drop 1 word) g c \<noteq> []) coll")
    case False
    then have "\<forall>x\<in>set coll. qualifying (drop 1 word) g x = []"
      by (simp add: list_ex_iff)
    from findBestMatch_none [OF assms(2) this]
    have "findBestMatch lc word (Some coll) g = None" .
    then show ?thesis by (simp only: False if_False)
  next
    case True
    then obtain x where x: "x \<in> set coll" "qualifying (drop 1 word) g x \<noteq> []"
      by (auto simp: list_ex_iff)
    from findBestMatch_least [OF assms x] obtain r where
      r: "findBestMatch lc word (Some coll) g = Some r" "r \<in> set coll"
         "qualifying (drop 1 word) g r \<noteq> []"
         "\<forall>c\<in>set coll. qualifying (drop 1 word) g c \<noteq> [] \<longrightarrow>
            rank lc g (mkCandidate (drop 1 word) (sanitise (drop 1 word)) g r)
                      (mkCandidate (drop 1 word) (sanitise (drop 1 word)) g c) \<le> 0"
      by blast
    have "\<forall>c\<in>set coll. qualifying (drop 1 word) g c \<noteq> [] \<longrightarrow>
            (exactMatch (drop 1 word) g c \<longrightarrow> exactMatch (drop 1 word) g r) \<and>
            (exactMatch (drop 1 word) g c = exactMatch (drop 1 word) g r \<longrightarrow>
               shortestQualifying (drop 1 word) g r \<le> shortestQualifying (drop 1 word) g c \<and>
               (shortestQualifying (drop 1 word) g r = shortestQualifying (drop 1 word) g c \<longrightarrow>
                  lc (primaryString g r) (primaryString g c) \<le> 0))"
      using r(3,4) rank_mkCandidate [of "drop 1 word" g r _ lc] by blast
    with r(1,2,3) have "\<exists>r. findBestMatch lc word (Some coll) g = Some r \<and> r \<in> set coll \<and>
                 qualifying (drop 1 word) g r \<noteq> [] \<and>
                 (\<forall>c\<in>set coll. qualifying (drop 1 word) g c \<noteq> [] \<longrightarrow>
                    (exactMatch (drop 1 word) g c \<longrightarrow> exactMatch (drop 1 word) g r) \<and>
                    (exactMatch (drop 1 word) g c = exactMatch (drop 1 word) g r \<longrightarrow>
                       shortestQualifying (drop 1 word) g r \<le> shortestQualifying (drop 1 word) g c \<and>
                       (shortestQualifying (drop 1 word) g r = shortestQualifying (drop 1 word) g c \<longrightarrow>
                          lc (primaryString g r) (primaryString g c) \<le> 0)))"
      by (intro exI [of _ r] conjI)
    then show ?thesis by (simp only: True if_True)
  qed
qed

theorem findBestMatch_ranking_witness:
  "consistent_comparator codeUnitCompare \<and>
   findBestMatch codeUnitCompare ''-me''
     (Some [''medium'', ''Mean'', ''M_E'', ''x'', ''me'']) (\<lambda>s. [Some s]) = Some ''me'' \<and>
   findBestMatch codeUnitCompare ''-m'' (Some [''medium'', ''m'']) (\<lambda>s. [Some s]) = Some ''m'' \<and>
   findBestMatch codeUnitCompare ''-m'' (Some [''mb'', ''ma'']) (\<lambda>s. [Some s]) = Some ''ma'' \<and>
   findBestMatch codeUnitCompare ''-me'' (Some [''x'', ''y'']) (\<lambda>s. [Some s]) = None"
proof -
  let ?g = "\<lambda>s::string. [Some s]"
  have w: "''-me'' \<noteq> []" "''-m'' \<noteq> []" by simp_all
  have nq: "list_ex (\<lambda>c. qualifying (drop 1 ''-me'') ?g c \<noteq> []) [''x'', ''y''] = False"
    by code_simp
  from findBestMatch_ranking [OF consistent_codeUnitCompare w(1), of ?g "[''x'', ''y'']"]
  have n: "findBestMatch codeUnitCompare ''-me'' (Some [''x'', ''y'']) ?g = None"
    by (simp only: nq if_False)
  have q: "list_ex (\<lambda>c. qualifying (drop 1 ''-m'') ?g c \<noteq> []) [''mb'', ''ma''] = True"
    by code_simp
  from findBestMatch_ranking [OF consistent_codeUnitCompare w(2), of ?g "[''mb'', ''ma'']"]
  obtain r where r: "findBestMatch codeUnitCompare ''-m'' (Some [''mb'', ''ma'']) ?g = Some r"
    "r \<in> set [''mb'', ''ma'']"
    and rk: "\<forall>c\<in>set [''mb'', ''ma'']. qualifying (drop 1 ''-m'') ?g c \<noteq> [] \<longrightarrow>
        (exactMatch (drop 1 ''-m'') ?g c \<longrightarrow> exactMatch (drop 1 ''-m'') ?g r) \<and>
        (exactMatch (drop 1 ''-m'') ?g c = exactMatch (drop 1 ''-m'') ?g r \<longrightarrow>
           shortestQualifying (drop 1 ''-m'') ?g r \<le> shortestQualifying (drop 1 ''-m'') ?g c \<and>
           (shortestQualifying (drop 1 ''-m'') ?g r = shortestQualifying (drop 1 ''-m'') ?g c \<longrightarrow>
              codeUnitCompare (primaryString ?g r) (primaryString ?g c) \<le> 0))"
    unfolding q if_True by blast
  have f: "qualifying (drop 1 ''-m'') ?g ''ma'' \<noteq> []"
    "exactMatch (drop 1 ''-m'') ?g ''ma'' = exactMatch (drop 1 ''-m'') ?g ''mb''"
    "shortestQualifying (drop 1 ''-m'') ?g ''mb'' = shortestQualifying (drop 1 ''-m'') ?g ''ma''"
    "\<not> codeUnitCompare (primaryString ?g ''mb'') (primaryString ?g ''ma'') \<le> 0"
    by code_simp+
  have "r \<noteq> ''mb''"
  proof
    assume "r = ''mb''"
    with rk f(1,2,3) have "codeUnitCompare (primaryString ?g ''mb'') (primaryString ?g ''ma'') \<le> 0"
      by simp
    with f(4) show False by simp
  qed
  with r(2) have "r = ''ma''" by simp
  with r(1) have t: "findBestMatch codeUnitCompare ''-m'' (Some [''mb'', ''ma'']) ?g = Some ''ma''"
    by simp
  have p: "findBestMatch codeUnitCompare ''-me''
      (Some [''medium'', ''Mean'', ''M_E'', ''x'', ''me'']) ?g = Some ''me''"
    by code_simp
  have m: "findBestMatch codeUnitCompare ''-m'' (Some [''medium'', ''m'']) ?g = Some ''m''"
    by code_simp
  from consistent_codeUnitCompare p m t n show ?thesis by (intro conjI)
qed

section \<open>Properties of the Title Validator\<close>

lemma split_ws_nonempty: "split_ws s \<noteq> []"
  by (induction s rule: split_ws.induct) (auto split: list.splits)

lemma split_ws_single: "length (split_ws s) = 1 \<longleftrightarrow> \<not> list_ex is_space s"
proof (induction s rule: split_ws.induct)
  case 1
  then show ?case by simp
next
  case (2 c cs)
  show ?case
  proof (cases "is_space c")
    case True
    then show ?thesis using split_ws_nonempty [of "dropWhile is_space cs"] by simp
  next
    case False
    obtain w ws where ws: "split_ws cs = w # ws"
      using split_ws_nonempty [of cs] by (cases "split_ws cs") auto
    from 2(2) [OF False] have "length (split_ws cs) = 1 \<longleftrightarrow> \<not> list_ex is_space cs" .
    with False ws show ?thesis by simp
  qed
qed

lemma dropWhile_rev_all: "list_all P r \<Longrightarrow> dropWhile P (rev r @ xs) = dropWhile P xs"
  by (simp add: dropWhile_append list_all_iff)

lemma trim_word:
  assumes "w \<noteq> []" "\<not> list_ex is_space w" "list_all is_space l" "list_all is_space r"
  shows "trim (l @ w @ r) = w"
proof -
  have "dropWhile is_space (l @ w @ r) = w @ r"
    using assms(1,2,3) by (cases w) (auto simp: dropWhile_append list_all_iff list_ex_iff)
  moreover have "dropWhile is_space (rev r @ rev w) = rev w"
    using assms(1,2,4) dropWhile_rev_all [of is_space r "rev w"]
    by (cases w rule: rev_cases) (auto simp: list_ex_iff)
  ultimately show ?thesis by (simp add: trim_def)
qed

lemma trim_blank: "list_all is_space s \<Longrightarrow> trim s = []"
proof -
  assume "list_all is_space s"
  then have d: "dropWhile is_space s = []"
    by (induction s) simp_all
  show ?thesis unfolding trim_def d by simp
qed

lemma trim_decompose:
  "\<exists>l r. s = l @ trim s @ r \<and> list_all is_space l \<and> list_all is_space r"
proof -
  define u where "u = dropWhile is_space s"
  have 1: "s = takeWhile is_space s @ u" by (simp add: u_def)
  have "rev (takeWhile is_space (rev u) @ dropWhile is_space (rev u)) =
        rev (dropWhile is_space (rev u)) @ rev (takeWhile is_space (rev u))"
    by (rule rev_append)
  then have "rev (rev u) = rev (dropWhile is_space (rev u)) @ rev (takeWhile is_space (rev u))"
    by (simp only: takeWhile_dropWhile_id)
  then have 2: "u = trim s @ rev (takeWhile is_space (rev u))"
    by (simp only: rev_rev_ident trim_def u_def)
  have a: "list_all is_space (takeWhile is_space s)"
    by (auto simp: list_all_iff dest: set_takeWhileD)
  have b: "list_all is_space (rev (takeWhile is_space (rev u)))"
    by (auto simp: list_all_iff dest: set_takeWhileD)
  from 1 2 have "s = takeWhile is_space s @ trim s @ rev (takeWhile is_space (rev u))" by simp
  with a b show ?thesis by blast
qed

lemma singleWord_decomposed:
  assumes "w \<noteq> []" "\<not> list_ex is_space w" "list_all is_space l" "list_all is_space r"
  shows "singleWord (l @ w @ r)"
proof -
  have d: "dropWhile is_space (l @ w @ r) = w @ r"
    using assms(1,2,3) by (cases w) (auto simp: dropWhile_append list_all_iff list_ex_iff)
  have t: "takeWhile (\<lambda>c. \<not> is_space c) (w @ r) = w"
    using assms(2,4) by (cases r) (auto simp: takeWhile_append list_ex_iff list_all_iff)
  have e: "dropWhile (\<lambda>c. \<not> is_space c) (w @ r) = r"
    using assms(2,4) by (cases r) (auto simp: dropWhile_append list_ex_iff list_all_iff)
  show ?thesis using assms(1,4) by (simp add: singleWord_def d t e)
qed

lemma singleWord_trim:
  assumes "singleWord s"
  shows "trim s \<noteq> [] \<and> \<not> list_ex is_space (trim s)"
proof -
  define u where "u = dropWhile is_space s"
  define w where "w = takeWhile (\<lambda>c. \<not> is_space c) u"
  define r where "r = dropWhile (\<lambda>c. \<not> is_space c) u"
  from assms have w: "w \<noteq> []" and r: "list_all is_space r"
    by (simp_all add: singleWord_def u_def w_def r_def Let_def)
  have nw: "\<not> list_ex is_space w"
    by (auto simp: w_def list_ex_iff dest: set_takeWhileD)
  have l: "list_all is_space (takeWhile is_space s)"
    by (auto simp: list_all_iff dest: set_takeWhileD)
  have "s = takeWhile is_space s @ w @ r"
    by (simp add: u_def w_def r_def)
  then have "trim s = w"
    using trim_word [OF w nw l r] by simp
  with w nw show ?thesis by simp
qed

lemma trim_no_space_iff:
  "\<not> list_ex is_space (trim s) \<longleftrightarrow> whitespaceOnly s \<or> singleWord s"
proof
  assume ns: "\<not> list_ex is_space (trim s)"
  from trim_decompose [of s] obtain l r where
    d: "s = l @ trim s @ r" "list_all is_space l" "list_all is_space r"
    by blast
  show "whitespaceOnly s \<or> singleWord s"
  proof (cases "trim s = []")
    case True
    with d have "list_all is_space s"
      by (metis append_Nil list_all_append)
    then show ?thesis by (simp add: whitespaceOnly_def)
  next
    case False
    from singleWord_decomposed [OF False ns d(2,3)] d(1) show ?thesis by simp
  qed
next
  assume "whitespaceOnly s \<or> singleWord s"
  then show "\<not> list_ex is_space (trim s)"
    using trim_blank [of s] singleWord_trim [of s]
    by (auto simp: whitespaceOnly_def)
qed

text \<open>
  C3, as amended. The empty title gets "Please provide a title". A title that is not
  empty and is whitespace-only or a single word gets "Please provide a more descriptive
  title with multiple words". Every other title is valid.
\<close>

theorem validateTitle_cases:
  "validateTitle title =
     (if title = [] then \<lparr>valid = False, message = Some ''Please provide a title''\<rparr>
      else if whitespaceOnly title \<or> singleWord title
      then \<lparr>valid = False,
            message = Some ''Please provide a more descriptive title with multiple words''\<rparr>
      else \<lparr>valid = True, message = None\<rparr>)"
  unfolding validateTitle_def split_ws_single trim_no_space_iff ..

theorem validateTitle_cases_witness:
  "validateTitle ''bug'' =
     \<lparr>valid = False,
      message = Some ''Please provide a more descriptive title with multiple words''\<rparr> \<and>
   validateTitle ''fix login bug'' = \<lparr>valid = True, message = None\<rparr> \<and>
   validateTitle '''' = \<lparr>valid = False, message = Some ''Please provide a title''\<rparr>"
proof -
  have 1: "singleWord ''bug''" by code_simp
  have 2: "\<not> (whitespaceOnly ''fix login bug'' \<or> singleWord ''fix login bug'')" by code_simp
  show ?thesis
    using validateTitle_cases [of "''bug''"] validateTitle_cases [of "''fix login bug''"]
      validateTitle_cases [of "''''"] 1 2
    by simp
qed

text \<open>
  The claim as stated fails on a title of one space, which is the title of the workflow
  for the input of one space: it is whitespace-only and gets the message for a single
  word.
\<close>

theorem validateTitle_whitespace_counterexample:
  "whitespaceOnly '' '' \<and>
   validateTitle '' '' =
     \<lparr>valid = False,
      message = Some ''Please provide a more descriptive title with multiple words''\<rparr> \<and>
   message (validateTitle '' '') \<noteq> Some ''Please provide a title'' \<and>
   map_sum id wf_title (processWorkflow codeUnitCompare '' '' emptyPrefs) = Inr '' ''"
  by code_simp

section \<open>Properties of the Preference Store\<close>

subsection \<open>What \<open>writePrefs\<close> writes\<close>





lemma writePrefs_result:
  "writePrefs stringify prefs isDryRun w =
     (if cwd_ok w \<and> (dir_exists w \<or> mkdir_ok w) \<and> write_ok w
      then (Inr (prefsWithTimestamps (now w) prefs),
            w\<lparr>dir_exists := True,
              cache_file := Content (stringify isDryRun (prefsWithTimestamps (now w) prefs))\<rparr>)
      else (Inl (Error (if \<not> cwd_ok w then ''ENOENT: process.cwd''
                        else if \<not> dir_exists w \<and> \<not> mkdir_ok w then ''mkdir'' else ''write'')),
            w\<lparr>dir_exists := (dir_exists w \<or> (cwd_ok w \<and> mkdir_ok w))\<rparr>))"
  by (simp add: writePrefs_def io_bind_def io_return_def userDataDir_def ensureUserDataDir_def
      writeFileSync_def Let_def)

lemma prefsWithTimestamps_lists:
  "teams (prefsWithTimestamps t prefs) = teams prefs \<and>
   projects (prefsWithTimestamps t prefs) = projects prefs \<and>
   users (prefsWithTimestamps t prefs) = users prefs \<and>
   error (prefsWithTimestamps t prefs) = error prefs"
  by (simp add: prefsWithTimestamps_def)




text \<open>
  C10. \<open>writePrefs\<close> takes every falsy choice for unset: given the priority \<open>0\<close>
  ("No priority"), or an empty string for another choice, it writes \<open>null\<close> for the
  choice and does not stamp it with the current time; the timestamp written is the one
  the given record carries (\<open>null\<close> when that is unset or itself \<open>0\<close>).
\<close>

theorem writePrefs_zero_priority:
  assumes "prioritiesChoice prefs = Some 0"
  shows "prioritiesChoice (prefsWithTimestamps t prefs) = None \<and>
         prioritiesChoiceTimestamp (prefsWithTimestamps t prefs) =
           (case prioritiesChoiceTimestamp prefs of
              None \<Rightarrow> None
            | Some ts \<Rightarrow> if ts = 0 then None else Some ts) \<and>
         (teamsChoice prefs = Some [] \<longrightarrow> teamsChoice (prefsWithTimestamps t prefs) = None) \<and>
         (projectsChoice prefs = Some [] \<longrightarrow> projectsChoice (prefsWithTimestamps t prefs) = None) \<and>
         (usersChoice prefs = Some [] \<longrightarrow> usersChoice (prefsWithTimestamps t prefs) = None) \<and>
         (cwd_ok w \<and> (dir_exists w \<or> mkdir_ok w) \<and> write_ok w \<longrightarrow>
            fst (writePrefs stringify prefs isDryRun w) = Inr (prefsWithTimestamps (now w) prefs) \<and>
            cache_file (snd (writePrefs stringify prefs isDryRun w)) =
              Content (stringify isDryRun (prefsWithTimestamps (now w) prefs)))"
  using assms
  by (simp add: prefsWithTimestamps_def orNull_def orNull_num_def js_or_def js_or_num_def
      truthy_def truthy_num_def writePrefs_result split: option.splits)

theorem writePrefs_zero_priority_witness:
  "prioritiesChoice (sampleSnapshot\<lparr>prioritiesChoice := Some 0,
        prioritiesChoiceTimestamp := Some 100\<rparr>) = Some 0 \<and>
   prioritiesChoice
     (prefsWithTimestamps 500
        (sampleSnapshot\<lparr>prioritiesChoice := Some 0, prioritiesChoiceTimestamp := Some 100\<rparr>)) = None \<and>
   prioritiesChoiceTimestamp
     (prefsWithTimestamps 500
        (sampleSnapshot\<lparr>prioritiesChoice := Some 0, prioritiesChoiceTimestamp := Some 100\<rparr>)) =
     Some 100"
proof -
  have h: "prioritiesChoice (sampleSnapshot\<lparr>prioritiesChoice := Some 0,
        prioritiesChoiceTimestamp := Some 100\<rparr>) = Some 0"
    by simp
  from writePrefs_zero_priority [OF h, of 500] h show ?thesis by simp
qed

subsection \<open>What \<open>readPrefs\<close> returns\<close>

lemma readPrefs_result:
  "readPrefs parse w =
     (if \<not> cwd_ok w \<or> (\<not> dir_exists w \<and> \<not> mkdir_ok w)
      then (Inr (Object emptyPrefs), w\<lparr>logged := logged w @ [''readPrefs'']\<rparr>)
      else (Inr (case cache_file w of
                   Missing \<Rightarrow> Object emptyPrefs
                 | Unreadable \<Rightarrow> Object emptyPrefs
                 | Content raw \<Rightarrow>
                     (case parse raw of
                        None \<Rightarrow> Object emptyPrefs
                      | Some v \<Rightarrow> orEmptyObject (ensureArrays v))),
            w\<lparr>dir_exists := True\<rparr>))"
  by (auto simp: readPrefs_def io_catch_def io_bind_def io_return_def io_throw_def
      userDataDir_def ensureUserDataDir_def readFileSync_def jsonParse_def logError_def
      orEmptyObject_def ensureArrays_def
      split: file_state.splits option.splits)

lemma orEmptyObject_not_Falsy: "orEmptyObject (ensureArrays v) \<noteq> Falsy"
  by (cases v) (simp_all add: orEmptyObject_def ensureArrays_def)

text \<open>
  C7. \<open>readPrefs\<close> never throws: in every state of the world and for every behaviour
  of \<open>JSON.parse\<close> it returns a value, and the value is truthy. It is the empty
  preference set when \<open>process.cwd()\<close> or \<open>mkdirSync\<close> throws, when the file is
  missing or cannot be read, and when its contents do not parse (as those of an empty
  file do not) or parse to a falsy value.
\<close>

theorem readPrefs_never_throws:
  "\<exists>v w'. readPrefs parse w = (Inr v, w') \<and> v \<noteq> Falsy \<and>
     (\<not> cwd_ok w \<or> (\<not> dir_exists w \<and> \<not> mkdir_ok w) \<or>
      cache_file w = Missing \<or> cache_file w = Unreadable \<or>
      (\<exists>raw. cache_file w = Content raw \<and> (parse raw = None \<or> parse raw = Some Falsy))
      \<longrightarrow> v = Object emptyPrefs)"
proof (cases "\<not> cwd_ok w \<or> (\<not> dir_exists w \<and> \<not> mkdir_ok w)")
  case True
  then have "readPrefs parse w =
      (Inr (Object emptyPrefs), w\<lparr>logged := logged w @ [''readPrefs'']\<rparr>)"
    by (simp add: readPrefs_result)
  then show ?thesis by simp
next
  case False
  define v where "v = (case cache_file w of
                   Missing \<Rightarrow> Object emptyPrefs
                 | Unreadable \<Rightarrow> Object emptyPrefs
                 | Content raw \<Rightarrow>
                     (case parse raw of
                        None \<Rightarrow> Object emptyPrefs
                      | Some v \<Rightarrow> orEmptyObject (ensureArrays v)))"
  from False have c: "(\<not> cwd_ok w \<or> (\<not> dir_exists w \<and> \<not> mkdir_ok w)) = False"
    by simp
  have r: "readPrefs parse w = (Inr v, w\<lparr>dir_exists := True\<rparr>)"
    by (simp only: readPrefs_result c if_False v_def)
  have nf: "v \<noteq> Falsy"
    using orEmptyObject_not_Falsy
    by (simp add: v_def split: file_state.splits option.splits)
  have e: "cache_file w = Missing \<or> cache_file w = Unreadable \<or>
      (\<exists>raw. cache_file w = Content raw \<and> (parse raw = None \<or> parse raw = Some Falsy))
      \<longrightarrow> v = Object emptyPrefs"
    by (auto simp: v_def orEmptyObject_def ensureArrays_def)
  from False r nf e show ?thesis by blast
qed

theorem readPrefs_never_throws_witness:
  "fst (readPrefs sampleParse (sampleWorld\<lparr>cache_file := Missing\<rparr>)) = Inr (Object emptyPrefs) \<and>
   sampleParse [] = None \<and>
   fst (readPrefs sampleParse (sampleWorld\<lparr>cache_file := Content []\<rparr>)) = Inr (Object emptyPrefs) \<and>
   fst (readPrefs sampleParse (sampleWorld\<lparr>cache_file := Content ''{teams:''\<rparr>)) =
     Inr (Object emptyPrefs) \<and>
   fst (readPrefs sampleParse (sampleWorld\<lparr>cwd_ok := False\<rparr>)) = Inr (Object emptyPrefs) \<and>
   fst (readPrefs sampleParse sampleWorld) = Inr (Object sampleSnapshot)"
proof -
  have p: "sampleParse [] = None" "sampleParse ''{teams:'' = None"
    by (simp_all add: sampleParse_def)
  have 1: "fst (readPrefs sampleParse (sampleWorld\<lparr>cache_file := Missing\<rparr>)) = Inr (Object emptyPrefs)"
    using readPrefs_never_throws [of sampleParse "sampleWorld\<lparr>cache_file := Missing\<rparr>"]
    by auto
  have 2: "fst (readPrefs sampleParse (sampleWorld\<lparr>cache_file := Content []\<rparr>)) = Inr (Object emptyPrefs)"
    using readPrefs_never_throws [of sampleParse "sampleWorld\<lparr>cache_file := Content []\<rparr>"] p
    by auto
  have 3: "fst (readPrefs sampleParse (sampleWorld\<lparr>cache_file := Content ''{teams:''\<rparr>)) =
      Inr (Object emptyPrefs)"
    using readPrefs_never_throws [of sampleParse "sampleWorld\<lparr>cache_file := Content ''{teams:''\<rparr>"] p
    by auto
  have 4: "fst (readPrefs sampleParse (sampleWorld\<lparr>cwd_ok := False\<rparr>)) = Inr (Object emptyPrefs)"
    using readPrefs_never_throws [of sampleParse "sampleWorld\<lparr>cwd_ok := False\<rparr>"]
    by auto
  have 5: "fst (readPrefs sampleParse sampleWorld) = Inr (Object sampleSnapshot)"
    by (simp add: readPrefs_result sampleWorld_def sampleParse_def orEmptyObject_def
        ensureArrays_def orEmpty_def sampleSnapshot_def emptyPrefs_def)
  from p(1) 1 2 3 4 5 show ?thesis by (intro conjI)
qed

subsection \<open>Staleness\<close>

lemma stale_iff:
  "stale v \<longleftrightarrow>
     teams (asMetadata v) = None \<or> teams (asMetadata v) = Some [] \<or>
     projects (asMetadata v) = None \<or> projects (asMetadata v) = Some [] \<or>
     users (asMetadata v) = None \<or> users (asMetadata v) = Some []"
  by (cases v) (auto simp: stale_def asMetadata_def noLength_def emptyPrefs_def split: option.splits)

lemma getUnifiedMetadata_unfold:
  assumes "readPrefs parse w = (Inr cached, w1)"
  shows "getUnifiedMetadata parse stringify getMetadata refresh linearToken w =
     (if stale cached
      then (case writePrefs stringify (getMetadata linearToken) False w1 of
              (Inl e, w2) \<Rightarrow> (Inl e, w2)
            | (Inr _, w2) \<Rightarrow> (Inr (getMetadata linearToken), w2))
      else (Inr (asMetadata cached), refresh (w1\<lparr>launched := launched w1 @ [linearToken]\<rparr>)))"
  using assms
  by (simp add: getUnifiedMetadata_def io_bind_def io_return_def createLinearIssueCacheAsync_def
      Let_def split: prod.splits sum.splits)

text \<open>
  C8. Let \<open>readPrefs\<close> return the cached value \<open>cached\<close>. \<open>getUnifiedMetadata\<close>
  takes the stale path exactly when one of the lists of teams, projects and users of the
  cached value is empty or absent. On the stale path it fetches, has \<open>writePrefs\<close>
  persist what was fetched, and returns what was fetched (an exception of the write
  propagates); no background refresh is started. On the fresh path it returns the
  cached metadata, starts the background refresh with the token and touches nothing
  else; whatever the refresh does, the value returned is the cached metadata.
\<close>

theorem getUnifiedMetadata_staleness:
  assumes "readPrefs parse w = (Inr cached, w1)"
  shows "if teams (asMetadata cached) = None \<or> teams (asMetadata cached) = Some [] \<or>
            projects (asMetadata cached) = None \<or> projects (asMetadata cached) = Some [] \<or>
            users (asMetadata cached) = None \<or> users (asMetadata cached) = Some []
         then (if cwd_ok w1 \<and> (dir_exists w1 \<or> mkdir_ok w1) \<and> write_ok w1
               then getUnifiedMetadata parse stringify getMetadata refresh linearToken w =
                      (Inr (getMetadata linearToken),
                       w1\<lparr>dir_exists := True,
                          cache_file := Content (stringify False
                            (prefsWithTimestamps (now w1) (getMetadata linearToken)))\<rparr>)
               else \<exists>e w2. getUnifiedMetadata parse stringify getMetadata refresh linearToken w =
                      (Inl e, w2) \<and> cache_file w2 = cache_file w1 \<and> launched w2 = launched w1)
         else getUnifiedMetadata parse stringify getMetadata refresh linearToken w =
                (Inr (asMetadata cached), refresh (w1\<lparr>launched := launched w1 @ [linearToken]\<rparr>))"
proof (cases "stale cached")
  case True
  then have c: "(teams (asMetadata cached) = None \<or> teams (asMetadata cached) = Some [] \<or>
            projects (asMetadata cached) = None \<or> projects (asMetadata cached) = Some [] \<or>
            users (asMetadata cached) = None \<or> users (asMetadata cached) = Some []) = True"
    by (simp only: stale_iff)
  have u: "getUnifiedMetadata parse stringify getMetadata refresh linearToken w =
      (case writePrefs stringify (getMetadata linearToken) False w1 of
              (Inl e, w2) \<Rightarrow> (Inl e, w2)
            | (Inr _, w2) \<Rightarrow> (Inr (getMetadata linearToken), w2))"
    by (simp only: getUnifiedMetadata_unfold [OF assms] True if_True)
  show ?thesis
  proof (cases "cwd_ok w1 \<and> (dir_exists w1 \<or> mkdir_ok w1) \<and> write_ok w1")
    case True
    then have t: "(cwd_ok w1 \<and> (dir_exists w1 \<or> mkdir_ok w1) \<and> write_ok w1) = True"
      by simp
    from True have g: "getUnifiedMetadata parse stringify getMetadata refresh linearToken w =
                      (Inr (getMetadata linearToken),
                       w1\<lparr>dir_exists := True,
                          cache_file := Content (stringify False
                            (prefsWithTimestamps (now w1) (getMetadata linearToken)))\<rparr>)"
      by (simp add: u writePrefs_result)
    show ?thesis unfolding c t if_True by (fact g)
  next
    case False
    then have f: "(cwd_ok w1 \<and> (dir_exists w1 \<or> mkdir_ok w1) \<and> write_ok w1) = False"
      by simp
    from False have g: "\<exists>e w2. getUnifiedMetadata parse stringify getMetadata refresh linearToken w =
                      (Inl e, w2) \<and> cache_file w2 = cache_file w1 \<and> launched w2 = launched w1"
      by (simp add: u writePrefs_result)
    show ?thesis unfolding c f if_True if_False by (fact g)
  qed
next
  case False
  then have c: "(teams (asMetadata cached) = None \<or> teams (asMetadata cached) = Some [] \<or>
            projects (asMetadata cached) = None \<or> projects (asMetadata cached) = Some [] \<or>
            users (asMetadata cached) = None \<or> users (asMetadata cached) = Some []) = False"
    by (simp only: stale_iff)
  have g: "getUnifiedMetadata parse stringify getMetadata refresh linearToken w =
      (Inr (asMetadata cached), refresh (w1\<lparr>launched := launched w1 @ [linearToken]\<rparr>))"
    by (simp only: getUnifiedMetadata_unfold [OF assms] False if_False)
  show ?thesis unfolding c if_False by (fact g)
qed

theorem getUnifiedMetadata_staleness_witness:
  "readPrefs sampleParse sampleWorld = (Inr (Object sampleSnapshot), sampleWorld) \<and>
   getUnifiedMetadata sampleParse (\<lambda>_ _. ''written'') (\<lambda>_. emptyPrefs)
       (\<lambda>w. w\<lparr>cache_file := Missing\<rparr>) (Some ''key'') sampleWorld =
     (Inr sampleSnapshot, sampleWorld\<lparr>launched := [Some ''key''], cache_file := Missing\<rparr>) \<and>
   readPrefs sampleParse (sampleWorld\<lparr>cache_file := Content ''null''\<rparr>) =
     (Inr (Object emptyPrefs), sampleWorld\<lparr>cache_file := Content ''null''\<rparr>) \<and>
   getUnifiedMetadata sampleParse (\<lambda>_ _. ''written'') (\<lambda>_. sampleSnapshot)
       (\<lambda>w. w\<lparr>cache_file := Missing\<rparr>) (Some ''key'')
       (sampleWorld\<lparr>cache_file := Content ''null''\<rparr>) =
     (Inr sampleSnapshot, sampleWorld\<lparr>cache_file := Content ''written''\<rparr>)"
proof -
  have r1: "readPrefs sampleParse sampleWorld = (Inr (Object sampleSnapshot), sampleWorld)"
    by (simp add: readPrefs_result sampleWorld_def sampleParse_def orEmptyObject_def
        ensureArrays_def orEmpty_def sampleSnapshot_def emptyPrefs_def)
  have r2: "readPrefs sampleParse (sampleWorld\<lparr>cache_file := Content ''null''\<rparr>) =
     (Inr (Object emptyPrefs), sampleWorld\<lparr>cache_file := Content ''null''\<rparr>)"
    by (simp add: readPrefs_result sampleWorld_def sampleParse_def orEmptyObject_def
        ensureArrays_def)
  have g1: "getUnifiedMetadata sampleParse (\<lambda>_ _. ''written'') (\<lambda>_. emptyPrefs)
       (\<lambda>w. w\<lparr>cache_file := Missing\<rparr>) (Some ''key'') sampleWorld =
     (Inr sampleSnapshot, sampleWorld\<lparr>launched := [Some ''key''], cache_file := Missing\<rparr>)"
    using getUnifiedMetadata_staleness [OF r1, of "\<lambda>_ _. ''written''" "\<lambda>_. emptyPrefs"
        "\<lambda>w. w\<lparr>cache_file := Missing\<rparr>" "Some ''key''"]
    by (simp add: asMetadata_def sampleSnapshot_def emptyPrefs_def sampleWorld_def)
  have g2: "getUnifiedMetadata sampleParse (\<lambda>_ _. ''written'') (\<lambda>_. sampleSnapshot)
       (\<lambda>w. w\<lparr>cache_file := Missing\<rparr>) (Some ''key'')
       (sampleWorld\<lparr>cache_file := Content ''null''\<rparr>) =
     (Inr sampleSnapshot, sampleWorld\<lparr>cache_file := Content ''written''\<rparr>)"
    using getUnifiedMetadata_staleness [OF r2, of "\<lambda>_ _. ''written''" "\<lambda>_. sampleSnapshot"
        "\<lambda>w. w\<lparr>cache_file := Missing\<rparr>" "Some ''key''"]
    by (simp add: asMetadata_def emptyPrefs_def sampleWorld_def)
  from r1 g1 r2 g2 show ?thesis by (intro conjI)
qed

section \<open>Properties of the Default Applier\<close>

lemma lookups_keep_ids:
  "teamId (lookupTeamName md r) = teamId r"
  "projectId (lookupTeamName md r) = projectId r"
  "assigneeId (lookupTeamName md r) = assigneeId r"
  "priorityId (lookupTeamName md r) = priorityId r"
  "teamId (lookupProjectName md r) = teamId r"
  "projectId (lookupProjectName md r) = projectId r"
  "assigneeId (lookupProjectName md r) = assigneeId r"
  "priorityId (lookupProjectName md r) = priorityId r"
  "teamId (lookupAssigneeName md r) = teamId r"
  "projectId (lookupAssigneeName md r) = projectId r"
  "assigneeId (lookupAssigneeName md r) = assigneeId r"
  "priorityId (lookupAssigneeName md r) = priorityId r"
  "teamId (lookupPriorityLabel r) = teamId r"
  "projectId (lookupPriorityLabel r) = projectId r"
  "assigneeId (lookupPriorityLabel r) = assigneeId r"
  "priorityId (lookupPriorityLabel r) = priorityId r"
  by (simp_all add: lookupTeamName_def lookupProjectName_def lookupAssigneeName_def
      lookupPriorityLabel_def split: option.splits)

lemma fallbacks_keep_ids:
  "teamId (assigneeFallback md r) = teamId r"
  "projectId (assigneeFallback md r) = projectId r"
  "priorityId (assigneeFallback md r) = priorityId r"
  "teamId (priorityFallback md r) = teamId r"
  "projectId (priorityFallback md r) = projectId r"
  "assigneeId (priorityFallback md r) = assigneeId r"
  "projectId (defaultTeamFallback md r) = projectId r"
  "assigneeId (defaultTeamFallback md r) = assigneeId r"
  "priorityId (defaultTeamFallback md r) = priorityId r"
  "assigneeId (teamProjectFallback md r) = assigneeId r"
  "priorityId (teamProjectFallback md r) = priorityId r"
  by (simp_all add: assigneeFallback_def priorityFallback_def defaultTeamFallback_def
      teamProjectFallback_def split: option.splits list.splits)

lemma applyDefaultPreferences_ids:
  "teamId (applyDefaultPreferences params md) =
     teamId (defaultTeamFallback md (teamProjectFallback md params))"
  "projectId (applyDefaultPreferences params md) = projectId (teamProjectFallback md params)"
  "assigneeId (applyDefaultPreferences params md) =
     (if assigneeId params = None then usersChoice md else assigneeId params)"
  "priorityId (applyDefaultPreferences params md) =
     (if priorityId params = None then prioritiesChoice md else priorityId params)"
  by (auto simp: applyDefaultPreferences_def Let_def lookups_keep_ids fallbacks_keep_ids
      assigneeFallback_def priorityFallback_def)

lemma find_first:
  "P p \<Longrightarrow> \<forall>q\<in>set before. \<not> P q \<Longrightarrow> find P (before @ p # after) = Some p"
  by (induction before) simp_all

lemma find_none: "\<forall>q\<in>set ps. \<not> P q \<Longrightarrow> find P ps = None"
  by (induction ps) simp_all

lemma teamId_of_resolved_project:
  assumes "teamId params = None" and "projectId params = Some pid" and "pid \<noteq> []"
  shows "teamId (applyDefaultPreferences params md) =
           (case findById project_id (Some pid) (projects md) of
              None \<Rightarrow> teamsChoice md
            | Some p \<Rightarrow> (case project_teams p of
                          None \<Rightarrow> teamsChoice md
                        | Some [] \<Rightarrow> teamsChoice md
                        | Some (x # _) \<Rightarrow> Some x))"
  using assms
  by (simp add: applyDefaultPreferences_ids defaultTeamFallback_def teamProjectFallback_def
      truthy_def split: option.splits list.splits)

text \<open>
  C5. Let the project be resolved and the team be unset. The project is resolved when it
  holds an identifier, a non-empty string: on the empty string the two tests of the code
  disagree (\<open>!= null\<close> takes it for set, \<open>!results.projectId\<close> for unset). Let \<open>p\<close>
  be the project of this id in the metadata, the first one of the list when several have
  the id. If \<open>p\<close> has owning teams, the team becomes the first of them. If \<open>p\<close> has no
  owning team, or the metadata has no project of this id, the team becomes the persisted
  team choice. The project stays as it is.
\<close>

theorem applyDefaultPreferences_team_of_project:
  assumes "teamId params = None" and "projectId params = Some pid" and "pid \<noteq> []"
  shows "(\<forall>before p after x rest.
            projects md = Some (before @ p # after) \<and> project_id p = pid \<and>
            (\<forall>q\<in>set before. project_id q \<noteq> pid) \<and> project_teams p = Some (x # rest) \<longrightarrow>
            teamId (applyDefaultPreferences params md) = Some x) \<and>
         (\<forall>before p after.
            projects md = Some (before @ p # after) \<and> project_id p = pid \<and>
            (\<forall>q\<in>set before. project_id q \<noteq> pid) \<and>
            (project_teams p = None \<or> project_teams p = Some []) \<longrightarrow>
            teamId (applyDefaultPreferences params md) = teamsChoice md) \<and>
         ((case projects md of None \<Rightarrow> True
                              | Some ps \<Rightarrow> \<forall>q\<in>set ps. project_id q \<noteq> pid) \<longrightarrow>
            teamId (applyDefaultPreferences params md) = teamsChoice md) \<and>
         projectId (applyDefaultPreferences params md) = Some pid"
proof -
  note t = teamId_of_resolved_project [OF assms, of md]
  have f: "findById project_id (Some pid) (Some (before @ p # after)) = Some p"
    if "project_id p = pid" "\<forall>q\<in>set before. project_id q \<noteq> pid" for before p after
    using that find_first [of "\<lambda>x. Some (project_id x) = Some pid" p before after]
    by (simp add: findById_def)
  have 1: "\<forall>before p after x rest.
            projects md = Some (before @ p # after) \<and> project_id p = pid \<and>
            (\<forall>q\<in>set before. project_id q \<noteq> pid) \<and> project_teams p = Some (x # rest) \<longrightarrow>
            teamId (applyDefaultPreferences params md) = Some x"
  proof (intro allI impI)
    fix before p after x rest
    assume h: "projects md = Some (before @ p # after) \<and> project_id p = pid \<and>
            (\<forall>q\<in>set before. project_id q \<noteq> pid) \<and> project_teams p = Some (x # rest)"
    then have "findById project_id (Some pid) (projects md) = Some p"
      using f [of p before after] by simp
    with h show "teamId (applyDefaultPreferences params md) = Some x"
      by (simp add: t)
  qed
  have 2: "\<forall>before p after.
            projects md = Some (before @ p # after) \<and> project_id p = pid \<and>
            (\<forall>q\<in>set before. project_id q \<noteq> pid) \<and>
            (project_teams p = None \<or> project_teams p = Some []) \<longrightarrow>
            teamId (applyDefaultPreferences params md) = teamsChoice md"
  proof (intro allI impI)
    fix before p after
    assume h: "projects md = Some (before @ p # after) \<and> project_id p = pid \<and>
            (\<forall>q\<in>set before. project_id q \<noteq> pid) \<and>
            (project_teams p = None \<or> project_teams p = Some [])"
    then have "findById project_id (Some pid) (projects md) = Some p"
      using f [of p before after] by simp
    with h show "teamId (applyDefaultPreferences params md) = teamsChoice md"
      by (auto simp: t)
  qed
  have 3: "(case projects md of None \<Rightarrow> True
                              | Some ps \<Rightarrow> \<forall>q\<in>set ps. project_id q \<noteq> pid) \<longrightarrow>
            teamId (applyDefaultPreferences params md) = teamsChoice md"
  proof
    assume h: "case projects md of None \<Rightarrow> True
                              | Some ps \<Rightarrow> \<forall>q\<in>set ps. project_id q \<noteq> pid"
    have "findById project_id (Some pid) (projects md) = None"
    proof (cases "projects md")
      case None
      then show ?thesis by (simp add: findById_def)
    next
      case (Some ps)
      with h have "\<forall>q\<in>set ps. \<not> Some (project_id q) = Some pid" by simp
      from find_none [OF this] Some show ?thesis by (simp add: findById_def)
    qed
    then show "teamId (applyDefaultPreferences params md) = teamsChoice md"
      by (simp add: t)
  qed
  have 4: "projectId (applyDefaultPreferences params md) = Some pid"
    using assms
    by (simp add: applyDefaultPreferences_ids teamProjectFallback_def
        split: option.splits list.splits)
  from 1 2 3 4 show ?thesis by (intro conjI)
qed

theorem applyDefaultPreferences_team_of_project_witness:
  "teamId ((initialResults [])\<lparr>projectId := Some ''P1''\<rparr>) = None \<and>
   teamId (applyDefaultPreferences ((initialResults [])\<lparr>projectId := Some ''P1''\<rparr>)
             threeProjectSnapshot) = Some ''T1'' \<and>
   teamId (applyDefaultPreferences ((initialResults [])\<lparr>projectId := Some ''P2''\<rparr>)
             threeProjectSnapshot) = Some ''T9'' \<and>
   teamId (applyDefaultPreferences ((initialResults [])\<lparr>projectId := Some ''P7''\<rparr>)
             threeProjectSnapshot) = Some ''T9''"
proof -
  define P0 where "P0 = \<lparr>project_id = ''P0'', project_name = Some ''Docs'',
      project_teams = Some [''T0'']\<rparr>"
  define P1 where "P1 = \<lparr>project_id = ''P1'', project_name = Some ''Website'',
      project_teams = Some [''T1'', ''T2'']\<rparr>"
  define P1' where "P1' = \<lparr>project_id = ''P1'', project_name = Some ''Mirror'',
      project_teams = Some [''T3'']\<rparr>"
  define P2 where "P2 = \<lparr>project_id = ''P2'', project_name = Some ''Orphan'',
      project_teams = Some []\<rparr>"
  have ps: "projects threeProjectSnapshot = Some ([P0] @ P1 # [P1', P2])"
    "projects threeProjectSnapshot = Some ([P0, P1, P1'] @ P2 # [])"
    by (simp_all add: threeProjectSnapshot_def P0_def P1_def P1'_def P2_def)
  have tc: "teamsChoice threeProjectSnapshot = Some ''T9''"
    by (simp add: threeProjectSnapshot_def)
  have h: "teamId ((initialResults [])\<lparr>projectId := Some pid\<rparr>) = None"
    "projectId ((initialResults [])\<lparr>projectId := Some pid\<rparr>) = Some pid" for pid
    by (simp_all add: initialResults_def)
  have n: "''P1'' \<noteq> []" "''P2'' \<noteq> []" "''P7'' \<noteq> []" by simp_all
  from applyDefaultPreferences_team_of_project [OF h n(1), of threeProjectSnapshot]
  have "projects threeProjectSnapshot = Some ([P0] @ P1 # [P1', P2]) \<and> project_id P1 = ''P1'' \<and>
        (\<forall>q\<in>set [P0]. project_id q \<noteq> ''P1'') \<and> project_teams P1 = Some (''T1'' # [''T2'']) \<longrightarrow>
        teamId (applyDefaultPreferences ((initialResults [])\<lparr>projectId := Some ''P1''\<rparr>)
             threeProjectSnapshot) = Some ''T1''"
    by blast
  then have a: "teamId (applyDefaultPreferences ((initialResults [])\<lparr>projectId := Some ''P1''\<rparr>)
             threeProjectSnapshot) = Some ''T1''"
    using ps(1) by (simp add: P0_def P1_def)
  from applyDefaultPreferences_team_of_project [OF h n(2), of threeProjectSnapshot]
  have "projects threeProjectSnapshot = Some ([P0, P1, P1'] @ P2 # []) \<and> project_id P2 = ''P2'' \<and>
        (\<forall>q\<in>set [P0, P1, P1']. project_id q \<noteq> ''P2'') \<and>
        (project_teams P2 = None \<or> project_teams P2 = Some []) \<longrightarrow>
        teamId (applyDefaultPreferences ((initialResults [])\<lparr>projectId := Some ''P2''\<rparr>)
             threeProjectSnapshot) = teamsChoice threeProjectSnapshot"
    by blast
  then have b: "teamId (applyDefaultPreferences ((initialResults [])\<lparr>projectId := Some ''P2''\<rparr>)
             threeProjectSnapshot) = Some ''T9''"
    using ps(2) tc by (simp add: P0_def P1_def P1'_def P2_def)
  from applyDefaultPreferences_team_of_project [OF h n(3), of threeProjectSnapshot]
  have "(case projects threeProjectSnapshot of None \<Rightarrow> True
            | Some ps \<Rightarrow> \<forall>q\<in>set ps. project_id q \<noteq> ''P7'') \<longrightarrow>
        teamId (applyDefaultPreferences ((initialResults [])\<lparr>projectId := Some ''P7''\<rparr>)
             threeProjectSnapshot) = teamsChoice threeProjectSnapshot"
    by blast
  then have c: "teamId (applyDefaultPreferences ((initialResults [])\<lparr>projectId := Some ''P7''\<rparr>)
             threeProjectSnapshot) = Some ''T9''"
    using tc by (simp add: ps(1) P0_def P1_def P1'_def P2_def)
  from h(1) [of "''P1''"] a b c show ?thesis by (intro conjI)
qed

subsection \<open>Where a resolved team comes from\<close>

lemma findBestMatch_in_set:
  assumes "findBestMatch lc word (Some coll) g = Some r"
  shows "r \<in> set coll"
proof (cases "word = []")
  case True
  with assms show ?thesis by (simp add: findBestMatch_def)
next
  case False
  from assms obtain c cs where
    c: "js_sort (rank lc g) (candidatesWithMatches (drop 1 word) g coll) = c # cs" "item c = r"
    by (auto simp: findBestMatch_unfold [OF False] split: list.splits)
  have "c \<in> set (js_sort (rank lc g) (candidatesWithMatches (drop 1 word) g coll))"
    unfolding c(1) by simp
  then have "c \<in> set (candidatesWithMatches (drop 1 word) g coll)"
    by (simp only: set_js_sort)
  then obtain x where "x \<in> set coll" "c = mkCandidate (drop 1 word) (sanitise (drop 1 word)) g x"
    by (auto simp: set_candidatesWithMatches)
  with c(2) show ?thesis by (simp add: item_mkCandidate)
qed

lemma matchWord_teamId:
  assumes "matchWord lc md key r word = Some r'"
    and "\<forall>t. teamId r = Some t \<longrightarrow> (\<exists>tm\<in>set (orEmpty (teams md)). team_id tm = t)"
  shows "\<forall>t. teamId r' = Some t \<longrightarrow> (\<exists>tm\<in>set (orEmpty (teams md)). team_id tm = t)"
proof (cases key)
  case Teams
  with assms(1) obtain tm where
    tm: "findBestMatch lc word (Some (orEmpty (teams md))) teamStrings = Some tm"
        "r' = r\<lparr>teamId := Some (team_id tm), teamName := team_name tm\<rparr>"
    by (auto split: option.splits)
  from findBestMatch_in_set [OF tm(1)] tm(2) show ?thesis by auto
next
  case Priorities
  with assms show ?thesis by (auto split: option.splits)
next
  case Users
  with assms show ?thesis by (auto split: option.splits)
next
  case Projects
  with assms show ?thesis by (auto simp: Let_def split: option.splits)
qed

lemma scanWords_teamId:
  assumes "\<forall>t. teamId r = Some t \<longrightarrow> (\<exists>tm\<in>set (orEmpty (teams md)). team_id tm = t)"
  shows "\<forall>t. teamId (scanWords lc md key n r) = Some t \<longrightarrow>
           (\<exists>tm\<in>set (orEmpty (teams md)). team_id tm = t)"
proof (induction n)
  case 0
  with assms show ?case by simp
next
  case (Suc i)
  show ?case
  proof (cases "matchWord lc md key r (unmatched r ! i)")
    case None
    with Suc show ?thesis by simp
  next
    case (Some r')
    from matchWord_teamId [OF Some assms] Some show ?thesis by simp
  qed
qed

lemma processParameters_teamId:
  "\<forall>t. teamId (processParameters lc paramWords md) = Some t \<longrightarrow>
       (\<exists>tm\<in>set (orEmpty (teams md)). team_id tm = t)"
proof -
  have 0: "\<forall>t. teamId (initialResults paramWords) = Some t \<longrightarrow>
       (\<exists>tm\<in>set (orEmpty (teams md)). team_id tm = t)"
    by (simp add: initialResults_def)
  show ?thesis
    unfolding processParameters_def processingOrder_def foldl.simps
    by (intro scanWords_teamId 0)
qed

text \<open>
  C6. \<open>applyDefaultPreferences\<close> leaves every field that is resolved as it is: a
  project, an assignee and a priority that are not \<open>null\<close>, and a team that holds an
  identifier, a non-empty string. The team of a resolution result is the id of a team
  of the metadata, so for metadata whose team ids are not empty every team that the
  Parameter Resolver has set is left as it is.
\<close>

theorem applyDefaultPreferences_keeps_resolved:
  "(projectId params \<noteq> None \<longrightarrow>
      projectId (applyDefaultPreferences params md) = projectId params) \<and>
   (assigneeId params \<noteq> None \<longrightarrow>
      assigneeId (applyDefaultPreferences params md) = assigneeId params) \<and>
   (priorityId params \<noteq> None \<longrightarrow>
      priorityId (applyDefaultPreferences params md) = priorityId params) \<and>
   (\<forall>t. teamId params = Some t \<and> t \<noteq> [] \<longrightarrow>
      teamId (applyDefaultPreferences params md) = Some t) \<and>
   ((\<forall>tm\<in>set (orEmpty (teams md')). team_id tm \<noteq> []) \<and>
    teamId (processParameters lc paramWords md') \<noteq> None \<longrightarrow>
      teamId (applyDefaultPreferences (processParameters lc paramWords md') md) =
        teamId (processParameters lc paramWords md'))"
proof -
  have k: "teamId (applyDefaultPreferences r md) = Some t" if "teamId r = Some t" "t \<noteq> []" for r t
    using that
    by (simp add: applyDefaultPreferences_ids defaultTeamFallback_def teamProjectFallback_def
        truthy_def)
  have 1: "projectId params \<noteq> None \<longrightarrow>
      projectId (applyDefaultPreferences params md) = projectId params"
    by (auto simp: applyDefaultPreferences_ids teamProjectFallback_def
        split: option.splits list.splits)
  have 2: "assigneeId params \<noteq> None \<longrightarrow>
      assigneeId (applyDefaultPreferences params md) = assigneeId params"
    by (simp add: applyDefaultPreferences_ids)
  have 3: "priorityId params \<noteq> None \<longrightarrow>
      priorityId (applyDefaultPreferences params md) = priorityId params"
    by (simp add: applyDefaultPreferences_ids)
  have 4: "\<forall>t. teamId params = Some t \<and> t \<noteq> [] \<longrightarrow>
      teamId (applyDefaultPreferences params md) = Some t"
    using k by blast
  have 5: "(\<forall>tm\<in>set (orEmpty (teams md')). team_id tm \<noteq> []) \<and>
    teamId (processParameters lc paramWords md') \<noteq> None \<longrightarrow>
      teamId (applyDefaultPreferences (processParameters lc paramWords md') md) =
        teamId (processParameters lc paramWords md')"
  proof
    assume h: "(\<forall>tm\<in>set (orEmpty (teams md')). team_id tm \<noteq> []) \<and>
      teamId (processParameters lc paramWords md') \<noteq> None"
    then obtain t where t: "teamId (processParameters lc paramWords md') = Some t" by auto
    with processParameters_teamId [of lc paramWords md'] h have "t \<noteq> []" by auto
    from k [OF t this] t
    show "teamId (applyDefaultPreferences (processParameters lc paramWords md') md) =
        teamId (processParameters lc paramWords md')"
      by simp
  qed
  from 1 2 3 4 5 show ?thesis by (intro conjI)
qed

theorem applyDefaultPreferences_keeps_resolved_witness:
  "projectId (applyDefaultPreferences
      ((initialResults [])\<lparr>teamId := Some ''T7'', projectId := Some ''P7'',
          assigneeId := Some ''U7'', priorityId := Some 0\<rparr>) sampleSnapshot) = Some ''P7'' \<and>
   assigneeId (applyDefaultPreferences
      ((initialResults [])\<lparr>teamId := Some ''T7'', projectId := Some ''P7'',
          assigneeId := Some ''U7'', priorityId := Some 0\<rparr>) sampleSnapshot) = Some ''U7'' \<and>
   priorityId (applyDefaultPreferences
      ((initialResults [])\<lparr>teamId := Some ''T7'', projectId := Some ''P7'',
          assigneeId := Some ''U7'', priorityId := Some 0\<rparr>) sampleSnapshot) = Some 0 \<and>
   teamId (applyDefaultPreferences
      ((initialResults [])\<lparr>teamId := Some ''T7'', projectId := Some ''P7'',
          assigneeId := Some ''U7'', priorityId := Some 0\<rparr>) sampleSnapshot) = Some ''T7'' \<and>
   teamId (processParameters codeUnitCompare [''-eng''] sampleSnapshot) = Some ''T1'' \<and>
   teamId (applyDefaultPreferences (processParameters codeUnitCompare [''-eng''] sampleSnapshot)
             (sampleSnapshot\<lparr>teamsChoice := Some ''T9''\<rparr>)) = Some ''T1''"
proof -
  let ?p = "(initialResults [])\<lparr>teamId := Some ''T7'', projectId := Some ''P7'',
          assigneeId := Some ''U7'', priorityId := Some 0\<rparr>"
  have ids: "\<forall>tm\<in>set (orEmpty (teams sampleSnapshot)). team_id tm \<noteq> []"
    by (simp add: sampleSnapshot_def emptyPrefs_def orEmpty_def)
  have e: "teamId (processParameters codeUnitCompare [''-eng''] sampleSnapshot) = Some ''T1''"
    by code_simp
  from applyDefaultPreferences_keeps_resolved
    [of ?p sampleSnapshot sampleSnapshot codeUnitCompare "[''-eng'']"]
  have a: "projectId (applyDefaultPreferences ?p sampleSnapshot) = Some ''P7''"
    "assigneeId (applyDefaultPreferences ?p sampleSnapshot) = Some ''U7''"
    "priorityId (applyDefaultPreferences ?p sampleSnapshot) = Some 0"
    "teamId (applyDefaultPreferences ?p sampleSnapshot) = Some ''T7''"
    by simp_all
  from applyDefaultPreferences_keeps_resolved
    [of ?p "sampleSnapshot\<lparr>teamsChoice := Some ''T9''\<rparr>" sampleSnapshot codeUnitCompare
        "[''-eng'']"] ids e
  have b: "teamId (applyDefaultPreferences
             (processParameters codeUnitCompare [''-eng''] sampleSnapshot)
             (sampleSnapshot\<lparr>teamsChoice := Some ''T9''\<rparr>)) = Some ''T1''"
    by simp
  from a e b show ?thesis by (intro conjI)
qed

section \<open>A token with an empty search term\<close>

lemma qualifying_empty_term:
  "sanitise t = [] \<Longrightarrow> qualifying t g x = filterBoolean (g x)"
  by (simp add: qualifying_def)

lemma exactMatch_empty_term:
  "sanitise t = [] \<Longrightarrow> exactMatch t g x = hasBlankString g x"
  by (simp add: exactMatch_def hasBlankString_def)

lemma shortestQualifying_empty_term:
  "sanitise t = [] \<Longrightarrow> shortestQualifying t g x = shortestString g x"
  by (simp add: shortestQualifying_def shortestString_def qualifying_empty_term)

text \<open>
  C9, as amended. Let the characters of a token after the first normalize to the empty
  string, and let a candidate of the list have a non-empty matchable string. Then
  \<open>findBestMatch\<close> returns a candidate, one with a non-empty matchable string, and no
  such candidate \<open>c\<close> beats it: if \<open>c\<close> has a blank string (an exact match of the empty
  term), so has the result; if both or neither have one, the shortest string of the
  result is no longer than that of \<open>c\<close>, and where these are equally long the primary
  string of the result does not come after that of \<open>c\<close>. So where no candidate has a
  blank string, the result is the candidate of the shortest string, alphabetical on ties.
\<close>

theorem findBestMatch_empty_term:
  assumes "consistent_comparator lc" and "word \<noteq> []" and "sanitise (drop 1 word) = []"
    and "x \<in> set coll" and "filterBoolean (g x) \<noteq> []"
  shows "\<exists>r. findBestMatch lc word (Some coll) g = Some r \<and> r \<in> set coll \<and>
             filterBoolean (g r) \<noteq> [] \<and>
             (\<forall>c\<in>set coll. filterBoolean (g c) \<noteq> [] \<longrightarrow>
                (hasBlankString g c \<longrightarrow> hasBlankString g r) \<and>
                (hasBlankString g c = hasBlankString g r \<longrightarrow>
                   shortestString g r \<le> shortestString g c \<and>
                   (shortestString g r = shortestString g c \<longrightarrow>
                      lc (primaryString g r) (primaryString g c) \<le> 0)))"
proof -
  note e = assms(3)
  have q: "qualifying (drop 1 word) g x \<noteq> []"
    using assms(5) by (simp only: qualifying_empty_term [OF e] not_False_eq_True)
  from findBestMatch_least [OF assms(1,2,4) q] obtain r where
    r: "findBestMatch lc word (Some coll) g = Some r" "r \<in> set coll"
       "qualifying (drop 1 word) g r \<noteq> []"
       "\<forall>c\<in>set coll. qualifying (drop 1 word) g c \<noteq> [] \<longrightarrow>
          rank lc g (mkCandidate (drop 1 word) (sanitise (drop 1 word)) g r)
                    (mkCandidate (drop 1 word) (sanitise (drop 1 word)) g c) \<le> 0"
    by blast
  have "\<forall>c\<in>set coll. filterBoolean (g c) \<noteq> [] \<longrightarrow>
          (hasBlankString g c \<longrightarrow> hasBlankString g r) \<and>
          (hasBlankString g c = hasBlankString g r \<longrightarrow>
             shortestString g r \<le> shortestString g c \<and>
             (shortestString g r = shortestString g c \<longrightarrow>
                lc (primaryString g r) (primaryString g c) \<le> 0))"
  proof (intro ballI impI)
    fix c assume c: "c \<in> set coll" "filterBoolean (g c) \<noteq> []"
    then have qc: "qualifying (drop 1 word) g c \<noteq> []"
      by (simp only: qualifying_empty_term [OF e] not_False_eq_True)
    with r(4) c(1) have "rank lc g (mkCandidate (drop 1 word) (sanitise (drop 1 word)) g r)
                    (mkCandidate (drop 1 word) (sanitise (drop 1 word)) g c) \<le> 0"
      by blast
    from rank_mkCandidate [OF r(3) qc this]
    show "(hasBlankString g c \<longrightarrow> hasBlankString g r) \<and>
          (hasBlankString g c = hasBlankString g r \<longrightarrow>
             shortestString g r \<le> shortestString g c \<and>
             (shortestString g r = shortestString g c \<longrightarrow>
                lc (primaryString g r) (primaryString g c) \<le> 0))"
      by (simp only: exactMatch_empty_term [OF e] shortestQualifying_empty_term [OF e])
  qed
  moreover have "filterBoolean (g r) \<noteq> []"
    using r(3) by (simp only: qualifying_empty_term [OF e] not_False_eq_True)
  ultimately show ?thesis using r(1,2) by blast
qed

theorem findBestMatch_empty_term_witness:
  "consistent_comparator codeUnitCompare \<and> sanitise (drop 1 ''--'') = [] \<and>
   findBestMatch codeUnitCompare ''--'' (Some priorities) priorityStrings =
     Some \<lparr>label = ''1'', priority_id = 1\<rparr> \<and>
   hasBlankString priorityStrings \<lparr>label = ''1'', priority_id = 1\<rparr> = False \<and>
   shortestString priorityStrings \<lparr>label = ''1'', priority_id = 1\<rparr> = 1 \<and>
   processParameters codeUnitCompare [''--''] emptyPrefs =
     (initialResults [])\<lparr>priorityId := Some 1, priorityLabel := Some ''1''\<rparr> \<and>
   findBestMatch codeUnitCompare ''--'' (Some [''b'', ''a'']) (\<lambda>s. [Some s]) = Some ''a''"
proof -
  have w: "''--'' \<noteq> []" by simp
  have e: "sanitise (drop 1 ''--'') = []" by code_simp
  have x: "\<lparr>label = ''1'', priority_id = 1\<rparr> \<in> set priorities"
    by (simp add: priorities_def)
  have f: "filterBoolean (priorityStrings \<lparr>label = ''1'', priority_id = 1\<rparr>) \<noteq> []"
    by (simp add: filterBoolean_def priorityStrings_def)
  from findBestMatch_empty_term [where g = priorityStrings
      and x = "\<lparr>label = ''1'', priority_id = 1\<rparr>", OF consistent_codeUnitCompare w e x f]
  obtain r where "findBestMatch codeUnitCompare ''--'' (Some priorities) priorityStrings = Some r"
    by blast
  moreover have "findBestMatch codeUnitCompare ''--'' (Some priorities) priorityStrings =
     Some \<lparr>label = ''1'', priority_id = 1\<rparr>"
    by code_simp
  ultimately have 1: "findBestMatch codeUnitCompare ''--'' (Some priorities) priorityStrings =
     Some \<lparr>label = ''1'', priority_id = 1\<rparr>"
    by simp
  have 2: "hasBlankString priorityStrings \<lparr>label = ''1'', priority_id = 1\<rparr> = False"
    by code_simp
  have 3: "shortestString priorityStrings \<lparr>label = ''1'', priority_id = 1\<rparr> = 1"
    by code_simp
  have 4: "processParameters codeUnitCompare [''--''] emptyPrefs =
     (initialResults [])\<lparr>priorityId := Some 1, priorityLabel := Some ''1''\<rparr>"
    by code_simp
  have 5: "findBestMatch codeUnitCompare ''--'' (Some [''b'', ''a'']) (\<lambda>s. [Some s]) = Some ''a''"
    by code_simp
  from consistent_codeUnitCompare e 1 2 3 4 5 show ?thesis by (intro conjI)
qed

text \<open>
  The claim as stated fails where a candidate has a blank string: of the candidates
  \<open>a\<close> and \<open>__\<close> the token \<open>--\<close> gets \<open>__\<close>, an exact match of the empty term,
  though \<open>a\<close> is shorter.
\<close>

theorem findBestMatch_blank_counterexample:
  "sanitise (drop 1 ''--'') = [] \<and>
   findBestMatch codeUnitCompare ''--'' (Some [''a'', ''__'']) (\<lambda>s. [Some s]) = Some ''__'' \<and>
   shortestString (\<lambda>s. [Some s]) ''a'' < shortestString (\<lambda>s. [Some s]) ''__''"
  by code_simp

section \<open>The resolution of an example\<close>

lemma exactMatch_qualifying: "exactMatch t g x \<Longrightarrow> qualifying t g x \<noteq> []"
proof -
  assume "exactMatch t g x"
  then obtain s where s: "s \<in> set (filterBoolean (g x))" "sanitise s = sanitise t"
    by (auto simp: exactMatch_def list_ex_iff)
  from s(2) have "prefix (sanitise t) (sanitise s)" by simp
  with s(1) have "s \<in> set (qualifying t g x)" by (simp add: qualifying_def)
  then show ?thesis by auto
qed

lemma findBestMatch_exact:
  assumes "consistent_comparator lc" and "word \<noteq> []"
    and "x \<in> set coll" and "exactMatch (drop 1 word) g x"
  shows "\<exists>r. findBestMatch lc word (Some coll) g = Some r \<and> r \<in> set coll \<and>
             exactMatch (drop 1 word) g r \<and>
             (\<forall>c\<in>set coll. exactMatch (drop 1 word) g c \<longrightarrow>
                shortestQualifying (drop 1 word) g r \<le> shortestQualifying (drop 1 word) g c \<and>
                (shortestQualifying (drop 1 word) g r = shortestQualifying (drop 1 word) g c \<longrightarrow>
                   lc (primaryString g r) (primaryString g c) \<le> 0))"
proof -
  have q: "qualifying (drop 1 word) g x \<noteq> []"
    by (rule exactMatch_qualifying [OF assms(4)])
  from findBestMatch_least [OF assms(1,2,3) q] obtain r where
    r: "findBestMatch lc word (Some coll) g = Some r" "r \<in> set coll"
       "qualifying (drop 1 word) g r \<noteq> []"
       "\<forall>c\<in>set coll. qualifying (drop 1 word) g c \<noteq> [] \<longrightarrow>
          rank lc g (mkCandidate (drop 1 word) (sanitise (drop 1 word)) g r)
                    (mkCandidate (drop 1 word) (sanitise (drop 1 word)) g c) \<le> 0"
    by blast
  from r(4) assms(3) q
  have "rank lc g (mkCandidate (drop 1 word) (sanitise (drop 1 word)) g r)
                  (mkCandidate (drop 1 word) (sanitise (drop 1 word)) g x) \<le> 0"
    by blast
  from rank_mkCandidate [OF r(3) q this] assms(4) have e: "exactMatch (drop 1 word) g r"
    by blast
  have "\<forall>c\<in>set coll. exactMatch (drop 1 word) g c \<longrightarrow>
                shortestQualifying (drop 1 word) g r \<le> shortestQualifying (drop 1 word) g c \<and>
                (shortestQualifying (drop 1 word) g r = shortestQualifying (drop 1 word) g c \<longrightarrow>
                   lc (primaryString g r) (primaryString g c) \<le> 0)"
  proof (intro ballI impI)
    fix c assume c: "c \<in> set coll" "exactMatch (drop 1 word) g c"
    have qc: "qualifying (drop 1 word) g c \<noteq> []"
      by (rule exactMatch_qualifying [OF c(2)])
    with r(4) c(1)
    have "rank lc g (mkCandidate (drop 1 word) (sanitise (drop 1 word)) g r)
                    (mkCandidate (drop 1 word) (sanitise (drop 1 word)) g c) \<le> 0"
      by blast
    from rank_mkCandidate [OF r(3) qc this] e c(2)
    show "shortestQualifying (drop 1 word) g r \<le> shortestQualifying (drop 1 word) g c \<and>
                (shortestQualifying (drop 1 word) g r = shortestQualifying (drop 1 word) g c \<longrightarrow>
                   lc (primaryString g r) (primaryString g c) \<le> 0)"
      by blast
  qed
  with r(1,2) e show ?thesis by blast
qed

text \<open>
  C2, as amended. For the input \<open>ln -u -h fix the login bug\<close> and metadata with a user
  one of whose matchable strings normalizes to \<open>u\<close>: the parser gives the flag tokens
  \<open>-u\<close>, \<open>-h\<close> and the four title words; the priorities pass, scanning from the last
  token, takes \<open>-h\<close> for the priority \<open>h\<close> of id 2; the users pass takes \<open>-u\<close> for
  the user that ranks first among the users with the alias \<open>u\<close> (the shortest matching
  string, then the order of \<open>localeCompare\<close> on the primary strings); the assignee is
  that user's id when no user of another id has the alias; team and project stay unset,
  no token is left unmatched, and the title is \<open>fix the login bug\<close>.
\<close>

theorem resolve_example:
  assumes "consistent_comparator lc" and "usr \<in> set (orEmpty (users md))"
    and "exactMatch ''u'' userStrings usr"
  shows "parseInput ''ln -u -h fix the login bug'' =
           ([''-u'', ''-h''], [''fix'', ''the'', ''login'', ''bug'']) \<and>
         (\<exists>w. w \<in> set (orEmpty (users md)) \<and> exactMatch ''u'' userStrings w \<and>
              assigneeId (processParameters lc [''-u'', ''-h''] md) = Some (user_id w) \<and>
              (\<forall>c\<in>set (orEmpty (users md)). exactMatch ''u'' userStrings c \<longrightarrow>
                 shortestQualifying ''u'' userStrings w \<le> shortestQualifying ''u'' userStrings c \<and>
                 (shortestQualifying ''u'' userStrings w = shortestQualifying ''u'' userStrings c \<longrightarrow>
                    lc (primaryString userStrings w) (primaryString userStrings c) \<le> 0))) \<and>
         ((\<forall>v\<in>set (orEmpty (users md)).
              exactMatch ''u'' userStrings v \<longrightarrow> user_id v = user_id usr) \<longrightarrow>
          assigneeId (processParameters lc [''-u'', ''-h''] md) = Some (user_id usr)) \<and>
         priorityId (processParameters lc [''-u'', ''-h''] md) = Some 2 \<and>
         teamId (processParameters lc [''-u'', ''-h''] md) = None \<and>
         projectId (processParameters lc [''-u'', ''-h''] md) = None \<and>
         unmatched (processParameters lc [''-u'', ''-h''] md) = [] \<and>
         join_space (map trim (unmatched (processParameters lc [''-u'', ''-h''] md) @
                               [''fix'', ''the'', ''login'', ''bug''])) = ''fix the login bug'' \<and>
         (\<not> truthy (error md) \<longrightarrow>
            map_sum id wf_title (processWorkflow lc ''ln -u -h fix the login bug'' md) =
              Inr ''fix the login bug'')"
proof -
  have p: "parseInput ''ln -u -h fix the login bug'' =
           ([''-u'', ''-h''], [''fix'', ''the'', ''login'', ''bug''])"
    by code_simp
  have h: "findBestMatch lc ''-h'' (Some priorities) priorityStrings =
      Some \<lparr>label = ''h'', priority_id = 2\<rparr>"
    by code_simp
  have d: "drop 1 ''-u'' = ''u''" by simp
  have n: "''-u'' \<noteq> []" by simp
  from findBestMatch_exact [where g = userStrings and x = usr, OF assms(1) n assms(2)] assms(3)
  obtain w where w: "findBestMatch lc ''-u'' (Some (orEmpty (users md))) userStrings = Some w"
    "w \<in> set (orEmpty (users md))" "exactMatch ''u'' userStrings w"
    "\<forall>c\<in>set (orEmpty (users md)). exactMatch ''u'' userStrings c \<longrightarrow>
       shortestQualifying ''u'' userStrings w \<le> shortestQualifying ''u'' userStrings c \<and>
       (shortestQualifying ''u'' userStrings w = shortestQualifying ''u'' userStrings c \<longrightarrow>
          lc (primaryString userStrings w) (primaryString userStrings c) \<le> 0)"
    unfolding d by blast
  have r: "processParameters lc [''-u'', ''-h''] md =
      (initialResults [])\<lparr>priorityId := Some 2, priorityLabel := Some ''h'',
         assigneeId := Some (user_id w),
         assigneeName := js_or (user_displayName w) (user_name w)\<rparr>"
    by (simp add: processParameters_def processingOrder_def initialResults_def h w(1))
  have a: "assigneeId (processParameters lc [''-u'', ''-h''] md) = Some (user_id w)"
    by (simp add: r initialResults_def)
  have t: "join_space (map trim ([] @ [''fix'', ''the'', ''login'', ''bug''])) = ''fix the login bug''"
    by code_simp
  have 1: "\<exists>w. w \<in> set (orEmpty (users md)) \<and> exactMatch ''u'' userStrings w \<and>
              assigneeId (processParameters lc [''-u'', ''-h''] md) = Some (user_id w) \<and>
              (\<forall>c\<in>set (orEmpty (users md)). exactMatch ''u'' userStrings c \<longrightarrow>
                 shortestQualifying ''u'' userStrings w \<le> shortestQualifying ''u'' userStrings c \<and>
                 (shortestQualifying ''u'' userStrings w = shortestQualifying ''u'' userStrings c \<longrightarrow>
                    lc (primaryString userStrings w) (primaryString userStrings c) \<le> 0))"
    by (rule exI [of _ w]) (intro conjI w(2) w(3) a w(4))
  have u: "(\<forall>v\<in>set (orEmpty (users md)).
              exactMatch ''u'' userStrings v \<longrightarrow> user_id v = user_id usr) \<longrightarrow>
          assigneeId (processParameters lc [''-u'', ''-h''] md) = Some (user_id usr)"
    using w(2,3) a by auto
  have 2: "priorityId (processParameters lc [''-u'', ''-h''] md) = Some 2"
    "teamId (processParameters lc [''-u'', ''-h''] md) = None"
    "projectId (processParameters lc [''-u'', ''-h''] md) = None"
    "unmatched (processParameters lc [''-u'', ''-h''] md) = []"
    by (simp_all add: r initialResults_def)
  have 3: "join_space (map trim (unmatched (processParameters lc [''-u'', ''-h''] md) @
                               [''fix'', ''the'', ''login'', ''bug''])) = ''fix the login bug''"
    unfolding 2(4) by (rule t)
  have 4: "\<not> truthy (error md) \<longrightarrow>
            map_sum id wf_title (processWorkflow lc ''ln -u -h fix the login bug'' md) =
              Inr ''fix the login bug''"
    using 3 by (simp add: processWorkflow_def p js_or_def Let_def)
  from p 1 u 2 3 4 show ?thesis by (intro conjI)
qed

theorem resolve_example_witness:
  "consistent_comparator codeUnitCompare \<and>
   exactMatch ''u'' userStrings
     \<lparr>user_id = ''U1'', user_name = Some ''Uma'', user_displayName = Some ''u'',
      user_email = Some ''uma@x.io''\<rparr> \<and>
   assigneeId (processParameters codeUnitCompare [''-u'', ''-h''] sampleSnapshot) = Some ''U1'' \<and>
   priorityId (processParameters codeUnitCompare [''-u'', ''-h''] sampleSnapshot) = Some 2 \<and>
   teamId (processParameters codeUnitCompare [''-u'', ''-h''] sampleSnapshot) = None \<and>
   projectId (processParameters codeUnitCompare [''-u'', ''-h''] sampleSnapshot) = None \<and>
   map_sum id wf_title
     (processWorkflow codeUnitCompare ''ln -u -h fix the login bug'' sampleSnapshot) =
     Inr ''fix the login bug''"
proof -
  define usr where "usr = \<lparr>user_id = ''U1'', user_name = Some ''Uma'',
      user_displayName = Some ''u'', user_email = Some ''uma@x.io''\<rparr>"
  have l: "orEmpty (users sampleSnapshot) = [usr]"
    by (simp add: usr_def sampleSnapshot_def emptyPrefs_def orEmpty_def)
  have m: "usr \<in> set (orEmpty (users sampleSnapshot))"
    by (simp add: l)
  have x: "exactMatch ''u'' userStrings usr"
    unfolding usr_def by code_simp
  have e: "\<not> truthy (error sampleSnapshot)"
    by (simp add: sampleSnapshot_def emptyPrefs_def truthy_def)
  have only: "\<forall>v\<in>set (orEmpty (users sampleSnapshot)).
      exactMatch ''u'' userStrings v \<longrightarrow> user_id v = user_id usr"
    by (simp add: l)
  have i: "user_id usr = ''U1''" by (simp add: usr_def)
  from resolve_example [OF consistent_codeUnitCompare m x] only e
  have "assigneeId (processParameters codeUnitCompare [''-u'', ''-h''] sampleSnapshot) =
      Some (user_id usr)"
    "priorityId (processParameters codeUnitCompare [''-u'', ''-h''] sampleSnapshot) = Some 2"
    "teamId (processParameters codeUnitCompare [''-u'', ''-h''] sampleSnapshot) = None"
    "projectId (processParameters codeUnitCompare [''-u'', ''-h''] sampleSnapshot) = None"
    "map_sum id wf_title
         (processWorkflow codeUnitCompare ''ln -u -h fix the login bug'' sampleSnapshot) =
       Inr ''fix the login bug''"
    by blast+
  with x consistent_codeUnitCompare show ?thesis
    unfolding usr_def i [unfolded usr_def] by (simp add: usr_def)
qed

text \<open>
  The claim as stated fails where two users have the alias: \<open>U1\<close> goes by \<open>u\<close> and
  \<open>U2\<close> by \<open>U\<close>, both strings are one character long, and \<open>Amy\<close> comes before
  \<open>Zed\<close>, so the assignee is \<open>U2\<close> though \<open>U1\<close> has the alias.
\<close>

theorem resolve_two_aliases_counterexample:
  "\<lparr>user_id = ''U1'', user_name = Some ''Zed'', user_displayName = Some ''u'',
     user_email = None\<rparr> \<in> set (orEmpty (users twoAliasSnapshot)) \<and>
   exactMatch ''u'' userStrings
     \<lparr>user_id = ''U1'', user_name = Some ''Zed'', user_displayName = Some ''u'',
      user_email = None\<rparr> \<and>
   fst (parseInput ''ln -u -h fix the login bug'') = [''-u'', ''-h''] \<and>
   assigneeId (processParameters codeUnitCompare [''-u'', ''-h''] twoAliasSnapshot) = Some ''U2'' \<and>
   assigneeId (processParameters codeUnitCompare [''-u'', ''-h''] twoAliasSnapshot) \<noteq> Some ''U1''"
  by code_simp

end
